theory Spec2Isabelle
  imports Complex_Main
begin

section \<open>Lucky imaging (lisim.py): data model\<close>

text \<open>
  The module is Python 2 on numpy arrays of float64. Conventions of the embedding:
  \<^item> a 2D array is a list of rows, a 3D stack a list of 2D arrays; arrays are rectangular;
  \<^item> pixel values are finite reals. The rounding of float64 arithmetic is kept explicit,
    as a function \<open>fl\<close> applied to the exact result, where a result is compared
    with a value or turned into a count: in the additions and the division that
    average a stack, and in the products \<open>fsr * N\<close> and
    \<open>cutoff_freq_frac * min(h, w)\<close> that are rounded to integers; every other pixel
    operation is written in exact arithmetic;
  \<^item> a value that numpy computes by a true division that may have a zero divisor
    (centroids, normalised correlations, pixel-unit errors) is an \<open>npfloat\<close>, which has
    the non-finite results of such a division;
  \<^item> a float used as an index or as a slice bound is truncated to an integer, which is what
    the numpy release this code runs on does (with a deprecation warning); the default
    Fourier path indexes with floats throughout;
  \<^item> every \<open>raise\<close> and every exception of the interpreter or of numpy on the modelled
    paths is a value \<open>Inl e\<close>; printing and timing are left out, except where formatting
    a message raises.
\<close>

datatype error =
    UserWarning
  | IndexError
  | ValueError
  | NameError
  | UnboundLocalError
  | ZeroDivisionError
  | Breakpoint
  | NonFiniteResult

text \<open>
  \<open>NonFiniteResult\<close> is not a Python exception: it marks a run in which numpy would
  store \<open>inf\<close> or \<open>nan\<close> in a pixel array (division of a stack by \<open>N + 1 = 0\<close>), which
  the real-valued pixels of this model cannot hold. \<open>Breakpoint\<close> is the run stopping
  in \<open>ipdb.set_trace()\<close>. \<open>ZeroDivisionError\<close> is raised
  nowhere in the module; it is part of the type so that statements about it can be
  written.
\<close>

definition bindE :: "'e + 'a \<Rightarrow> ('a \<Rightarrow> 'e + 'b) \<Rightarrow> 'e + 'b" where
  "bindE m f = (case m of Inl e \<Rightarrow> Inl e | Inr x \<Rightarrow> f x)"

fun mapE :: "('a \<Rightarrow> 'e + 'b) \<Rightarrow> 'a list \<Rightarrow> 'e + 'b list" where
  "mapE f [] = Inr []"
| "mapE f (x # xs) =
     (case f x of Inl e \<Rightarrow> Inl e
      | Inr y \<Rightarrow> (case mapE f xs of Inl e \<Rightarrow> Inl e | Inr ys \<Rightarrow> Inr (y # ys)))"

subsection \<open>Floats that may be non-finite\<close>

datatype npfloat = Fin real | PosInf | NegInf | NaN

text \<open>numpy's true division of two finite float64 scalars: no exception, a warning only.\<close>

definition np_true_divide :: "real \<Rightarrow> real \<Rightarrow> npfloat" where
  "np_true_divide a b =
     (if b \<noteq> 0 then Fin (a / b)
      else if a = 0 then NaN
      else if 0 < a then PosInf else NegInf)"

fun np_neg :: "npfloat \<Rightarrow> npfloat" where
  "np_neg (Fin x) = Fin (- x)"
| "np_neg PosInf = NegInf"
| "np_neg NegInf = PosInf"
| "np_neg NaN = NaN"

fun np_sub :: "npfloat \<Rightarrow> npfloat \<Rightarrow> npfloat" where
  "np_sub (Fin x) (Fin y) = Fin (x - y)"
| "np_sub NaN _ = NaN"
| "np_sub _ NaN = NaN"
| "np_sub PosInf PosInf = NaN"
| "np_sub NegInf NegInf = NaN"
| "np_sub PosInf _ = PosInf"
| "np_sub NegInf _ = NegInf"
| "np_sub (Fin x) PosInf = NegInf"
| "np_sub (Fin x) NegInf = PosInf"

text \<open>\<open>np.round\<close> followed by \<open>int\<close>: round half to even.\<close>

definition np_round :: "real \<Rightarrow> int" where
  "np_round x =
     (let f = \<lfloor>x\<rfloor>; r = x - of_int f
      in if r < 1 / 2 then f
         else if 1 / 2 < r then f + 1
         else if even f then f else f + 1)"

text \<open>
  IEEE 754 binary64 rounding to nearest, ties to even, of an exact real result (53
  significant bits; the exponent range is not bounded, so overflow and subnormals are
  not represented).
\<close>

definition fl64 :: "real \<Rightarrow> real" where
  "fl64 x =
     (if x = 0 then 0
      else (let e = \<lfloor>log 2 \<bar>x\<bar>\<rfloor> - 52
            in of_int (np_round (x / 2 powr (of_int e))) * 2 powr (of_int e)))"

subsection \<open>Arrays\<close>

type_synonym image = "real list list"
type_synonym shift_vec = "npfloat \<times> npfloat"

datatype ndarray = Arr2 image | Arr3 "image list"

definition img_shape :: "'a list list \<Rightarrow> nat \<times> nat" where
  "img_shape im = (length im, (case im of [] \<Rightarrow> 0 | r # _ \<Rightarrow> length r))"

definition is_image :: "nat \<Rightarrow> nat \<Rightarrow> 'a list list \<Rightarrow> bool" where
  "is_image h w im \<longleftrightarrow> length im = h \<and> list_all (\<lambda>r. length r = w) im"

definition zeros :: "nat \<Rightarrow> nat \<Rightarrow> image" where
  "zeros h w = replicate h (replicate w 0)"

text \<open>\<open>arr.flatten()\<close> of a stack or of one image.\<close>

definition flatten3 :: "image list \<Rightarrow> real list" where
  "flatten3 st = concat (concat st)"

definition lower_char :: "char \<Rightarrow> char" where
  "lower_char c =
     (let n = (of_char c :: nat)
      in if 65 \<le> n \<and> n \<le> 90 then char_of (n + 32) else c)"

definition lower :: "string \<Rightarrow> string" where
  "lower s = map lower_char s"

section \<open>Input check\<close>

text \<open>
  \<open>_li_error_check(images, image_ref, N)\<close>. The inputs are a 2D or a 3D array; arrays
  of more dimensions are not represented. \<open>images.flatten()[0]\<close> raises IndexError on
  an array with no element. The shape of \<open>images[0]\<close> is the shape of every frame.
\<close>

definition truthy :: "int option \<Rightarrow> bool" where
  "truthy n = (case n of None \<Rightarrow> False | Some k \<Rightarrow> k \<noteq> 0)"

definition li_error_check ::
  "ndarray \<Rightarrow> image option \<Rightarrow> int option \<Rightarrow> error + (image list \<times> image \<times> int)" where
  "li_error_check images image_ref Nopt =
     (if (case images of Arr2 im \<Rightarrow> concat im = [] | Arr3 st \<Rightarrow> flatten3 st = [])
        then Inl IndexError
      else if (case image_ref of None \<Rightarrow> False | Some r \<Rightarrow> concat r = [])
        then Inl IndexError
      else (case images of
          Arr2 im \<Rightarrow> Inl UserWarning
        | Arr3 st \<Rightarrow>
            if truthy Nopt \<and> the Nopt > int (length st) then Inl UserWarning
            else (case image_ref of
                None \<Rightarrow>
                  Inr (tl st, hd st,
                       if \<not> truthy Nopt then int (length st) - 1 else the Nopt)
              | Some r \<Rightarrow>
                  if img_shape r \<noteq> img_shape (hd st) then Inl UserWarning
                  else Inr (st, r,
                       if \<not> truthy Nopt then int (length st) else the Nopt))))"

section \<open>Alignment errors\<close>

text \<open>
  \<open>alignment_err(in_idxs, out_idxs, opticalsystem, li_method, plotHist, verbose)\<close>.
  The two inputs are arrays of N rows and 2 columns, here lists of pairs. The result
  records the returned \<open>errs_as\<close>, the local \<open>errs_px\<close> (it is only printed), and the two
  input arrays as they are when the function returns. The function writes to
  \<open>errs_as\<close> only. With \<open>plotHist\<close> the histogram routine runs before the return: it
  takes \<open>max\<close> of the columns, which raises ValueError when there is no row, and then
  draws, which is the external \<open>plot\<close>.
\<close>

record opticalsystem =
  plate_scale_as_px :: real

record alignment_result =
  errs_as :: "(real \<times> real \<times> real) list"
  errs_px :: "(npfloat \<times> npfloat \<times> npfloat) list"
  in_idxs_after :: "(real \<times> real) list"
  out_idxs_after :: "(real \<times> real) list"

definition err_row :: "real \<Rightarrow> (real \<times> real) \<Rightarrow> (real \<times> real) \<Rightarrow> real \<times> real \<times> real" where
  "err_row ps i oo =
     (let e0 = (fst i - fst oo) * ps;
          e1 = (snd i - snd oo) * ps
      in (e0, e1, sqrt (e0 ^ 2 + e1 ^ 2)))"

definition px_row :: "real \<Rightarrow> real \<times> real \<times> real \<Rightarrow> npfloat \<times> npfloat \<times> npfloat" where
  "px_row ps e =
     (case e of (a, b, c) \<Rightarrow> (np_true_divide a ps, np_true_divide b ps, np_true_divide c ps))"

definition plot_alignment_err_histogram ::
  "((real \<times> real \<times> real) list \<Rightarrow> error + unit) \<Rightarrow> (real \<times> real \<times> real) list \<Rightarrow> error + unit" where
  "plot_alignment_err_histogram plot errs =
     (if errs = [] then Inl ValueError else plot errs)"

definition alignment_err ::
  "((real \<times> real \<times> real) list \<Rightarrow> error + unit) \<Rightarrow>
   (real \<times> real) list \<Rightarrow> (real \<times> real) list \<Rightarrow> opticalsystem \<Rightarrow> bool \<Rightarrow>
   error + alignment_result" where
  "alignment_err plot in_idxs out_idxs osys plotHist =
     (let n = length in_idxs;
          ps = plate_scale_as_px osys
      in if length out_idxs < n then Inl IndexError
         else
           (let errs = map (\<lambda>k. err_row ps (in_idxs ! k) (out_idxs ! k)) [0..<n];
                res = \<lparr>errs_as = errs, errs_px = map (px_row ps) errs,
                       in_idxs_after = in_idxs, out_idxs_after = out_idxs\<rparr>
            in if plotHist
               then (case plot_alignment_err_histogram plot errs of
                       Inl e \<Rightarrow> Inl e | Inr _ \<Rightarrow> Inr res)
               else Inr res))"


section \<open>Library functions\<close>

text \<open>
  The functions of scipy, astropy and pyfftw that the module calls, and \<open>gaussian_smooth\<close>
  of the module \<open>imutils\<close> (it is not among the sources), are parameters of the model:
  \<^item> \<open>fl\<close>: the rounding of a float64 sum, product or quotient (\<open>fl64\<close> for the
    machine, the identity for exact arithmetic);
  \<^item> \<open>ndimage_shift\<close>: \<open>scipy.ndimage.interpolation.shift(image, shift)\<close>;
  \<^item> \<open>fftconvolve_same\<close>: \<open>scipy.signal.fftconvolve(a, b, 'same')\<close>;
  \<^item> \<open>xcorr_gauss_fit corr buff\<close>: the fit in the sub-pixel block of \<open>shift_xcorr\<close>,
    once the grids \<open>X\<close>, \<open>Y\<close> are made: a Levenberg-Marquardt fit of a 2D Gaussian
    to the window of \<open>corr\<close> inside the border \<open>buff\<close>, giving \<open>(y_mean, x_mean)\<close>;
  \<^item> \<open>gauss_fit\<close>: the fit of \<open>_gaussfit_peak\<close>, giving \<open>(x_mean, y_mean)\<close>;
  \<^item> \<open>fft2\<close>, \<open>ifft2\<close>: the 2D discrete Fourier transform and its inverse.
\<close>

type_synonym cimage = "complex list list"

record ext =
  fl :: "real \<Rightarrow> real"
  ndimage_shift :: "image \<Rightarrow> shift_vec \<Rightarrow> error + image"
  fftconvolve_same :: "image \<Rightarrow> image \<Rightarrow> image"
  xcorr_gauss_fit :: "npfloat list list \<Rightarrow> int \<Rightarrow> error + shift_vec"
  gauss_fit :: "image \<Rightarrow> error + (real \<times> real)"
  fft2 :: "image \<Rightarrow> cimage"
  ifft2 :: "cimage \<Rightarrow> cimage"
  gaussian_smooth :: "image \<Rightarrow> real \<Rightarrow> image"

text \<open>
  An instance of the interface for concrete runs: exact arithmetic, a shift that moves
  nothing, transforms that change nothing.
\<close>

definition ext_plain :: ext where
  "ext_plain =
     \<lparr>fl = (\<lambda>x. x),
      ndimage_shift = (\<lambda>im s. Inr im),
      fftconvolve_same = (\<lambda>a b. a),
      xcorr_gauss_fit = (\<lambda>c b. Inr (Fin 0, Fin 0)),
      gauss_fit = (\<lambda>im. Inr (0, 0)),
      fft2 = map (map complex_of_real),
      ifft2 = (\<lambda>c. c),
      gaussian_smooth = (\<lambda>im s. im)\<rparr>"

section \<open>Searching and sorting\<close>

text \<open>
  \<open>np.argmax\<close> scans the flattened array and keeps the first largest element. On floats
  the test is \<open>not (x <= best)\<close> and the scan stops at the first NaN.
\<close>

fun argmax_scan :: "('a \<Rightarrow> 'a \<Rightarrow> bool) \<Rightarrow> nat \<Rightarrow> 'a \<Rightarrow> nat \<Rightarrow> 'a list \<Rightarrow> nat" where
  "argmax_scan gt best bv i [] = best"
| "argmax_scan gt best bv i (x # xs) =
     (if gt x bv then argmax_scan gt i x (Suc i) xs
      else argmax_scan gt best bv (Suc i) xs)"

definition argmax :: "real list \<Rightarrow> error + nat" where
  "argmax xs =
     (case xs of [] \<Rightarrow> Inl ValueError
      | x # r \<Rightarrow> Inr (argmax_scan (\<lambda>a b. b < a) 0 x 1 r))"

fun np_le :: "npfloat \<Rightarrow> npfloat \<Rightarrow> bool" where
  "np_le NaN _ = False"
| "np_le _ NaN = False"
| "np_le NegInf _ = True"
| "np_le _ PosInf = True"
| "np_le (Fin x) (Fin y) = (x \<le> y)"
| "np_le (Fin x) NegInf = False"
| "np_le PosInf (Fin y) = False"
| "np_le PosInf NegInf = False"

definition np_argmax :: "npfloat list \<Rightarrow> error + nat" where
  "np_argmax xs =
     (case xs of [] \<Rightarrow> Inl ValueError
      | x # r \<Rightarrow> Inr (argmax_scan (\<lambda>a b. b \<noteq> NaN \<and> \<not> np_le a b) 0 x 1 r))"

definition unravel_index :: "nat \<Rightarrow> nat \<times> nat \<Rightarrow> nat \<times> nat" where
  "unravel_index a shp = (a div snd shp, a mod snd shp)"

text \<open>Python's \<open>max\<close> of a sequence: ValueError when it is empty.\<close>

definition list_max :: "real list \<Rightarrow> error + real" where
  "list_max xs = (case xs of [] \<Rightarrow> Inl ValueError | x # r \<Rightarrow> Inr (foldl max x r))"

text \<open>
  \<open>np.argsort\<close>: the indices that put the values in ascending order. Equal values are
  left in their order here; numpy promises no order among them.
\<close>

definition argsort :: "real list \<Rightarrow> nat list" where
  "argsort xs = sort_key (\<lambda>i. xs ! i) [0..<length xs]"

text \<open>\<open>xs[:n]\<close> and \<open>xs[-k:]\<close> for \<open>k > 0\<close>.\<close>

definition slice_to :: "int \<Rightarrow> 'a list \<Rightarrow> 'a list" where
  "slice_to n xs = (if 0 \<le> n then take (nat n) xs else take (nat (int (length xs) + n)) xs)"

definition slice_last :: "nat \<Rightarrow> 'a list \<Rightarrow> 'a list" where
  "slice_last k xs = drop (length xs - k) xs"

section \<open>Alignment of one frame\<close>

definition mean :: "real list \<Rightarrow> real" where
  "mean xs = sum_list xs / real (length xs)"

definition subtract_mean :: "image \<Rightarrow> image" where
  "subtract_mean im = map (map (\<lambda>x. x - mean (concat im))) im"

subsection \<open>Peak pixel\<close>

text \<open>
  \<open>shift_pp(image, img_ref_peak_idx, fsr, bid_area)\<close>. With a bid area the function
  reads the name \<open>images\<close>, which is neither a parameter nor a local nor defined in the
  module: NameError.
\<close>

definition shift_pp ::
  "ext \<Rightarrow> image \<Rightarrow> int \<times> int \<Rightarrow> real \<Rightarrow> (nat \<times> nat) option \<Rightarrow>
   error + (image \<times> shift_vec \<times> real)" where
  "shift_pp E img img_ref_peak_idx fsr_arg bid =
     (case bid of
        Some b \<Rightarrow> Inl NameError
      | None \<Rightarrow>
          bindE (argmax (concat img)) (\<lambda>a.
            let img_peak_idx = unravel_index a (img_shape img);
                rel0 = fst img_ref_peak_idx - int (fst img_peak_idx);
                rel1 = snd img_ref_peak_idx - int (snd img_peak_idx)
            in bindE (ndimage_shift E img (Fin (of_int rel0), Fin (of_int rel1))) (\<lambda>image_shifted.
               bindE (list_max (concat img)) (\<lambda>peak_pixel_val.
                 Inr (image_shifted, (Fin (of_int (- rel0)), Fin (of_int (- rel1))),
                      peak_pixel_val)))))"

subsection \<open>Centroid\<close>

text \<open>
  \<open>_centroid(image)\<close>: \<open>X[i][j] = j\<close> and \<open>Y[i][j] = i\<close>; the result is
  \<open>[M_01 / M_00, M_10 / M_00]\<close>, two true divisions of numpy floats.
\<close>

definition moment_10 :: "image \<Rightarrow> real" where
  "moment_10 im = sum_list (concat (map (\<lambda>row. map (\<lambda>j. real j * row ! j) [0..<length row]) im))"

definition moment_01 :: "image \<Rightarrow> real" where
  "moment_01 im = sum_list (concat (map (\<lambda>i. map (\<lambda>x. real i * x) (im ! i)) [0..<length im]))"

definition moment_00 :: "image \<Rightarrow> real" where
  "moment_00 im = sum_list (concat im)"

definition centroid :: "image \<Rightarrow> shift_vec" where
  "centroid im =
     (np_true_divide (moment_01 im) (moment_00 im),
      np_true_divide (moment_10 im) (moment_00 im))"

text \<open>\<open>bg = np.copy(image); bg[image < centroid_threshold * max(image.flatten())] = 0\<close>\<close>

definition threshold_image :: "real \<Rightarrow> image \<Rightarrow> error + image" where
  "threshold_image thr im =
     bindE (list_max (concat im)) (\<lambda>mx.
       Inr (map (map (\<lambda>x. if x < thr * mx then 0 else x)) im))"

definition centroid_rel_shift :: "image \<Rightarrow> shift_vec \<Rightarrow> real \<Rightarrow> error + shift_vec" where
  "centroid_rel_shift img img_ref_peak_idx thr =
     bindE (threshold_image thr img) (\<lambda>bg.
       let img_peak_idx = centroid bg
       in Inr (np_sub (fst img_ref_peak_idx) (fst img_peak_idx),
               np_sub (snd img_ref_peak_idx) (snd img_peak_idx)))"

definition shift_centroid ::
  "ext \<Rightarrow> image \<Rightarrow> shift_vec \<Rightarrow> real \<Rightarrow> error + (image \<times> shift_vec)" where
  "shift_centroid E img img_ref_peak_idx thr =
     bindE (centroid_rel_shift img img_ref_peak_idx thr) (\<lambda>rel.
     bindE (ndimage_shift E img rel) (\<lambda>image_shifted.
       Inr (image_shifted, (np_neg (fst rel), np_neg (snd rel)))))"

subsection \<open>Cross-correlation\<close>

text \<open>
  \<open>shift_xcorr(image, image_ref, buff_xcorr, sub_pixel_shift)\<close>. In the sub-pixel block
  \<open>np.mgrid[-(height-2*buff_xcorr)/2:(height-2*buff_xcorr)/2, ...]\<close> makes grids of
  \<open>height - 2 * buff_xcorr\<close> rows and \<open>width - 2 * buff_xcorr\<close> columns, and raises
  ValueError when one of the two numbers is negative; this is before the \<open>try\<close>.
\<close>

definition shift_xcorr ::
  "ext \<Rightarrow> image \<Rightarrow> image \<Rightarrow> int \<Rightarrow> bool \<Rightarrow> error + (image \<times> shift_vec)" where
  "shift_xcorr E img ref buff sub_pixel =
     (let image_subtracted_bg = subtract_mean img;
          image_ref_subtracted_bg = subtract_mean ref;
          hw = img_shape img;
          corr0 = fftconvolve_same E image_ref_subtracted_bg
                    (rev (map rev image_subtracted_bg))
      in bindE (list_max (concat corr0)) (\<lambda>mx.
           let corr = map (map (\<lambda>x. np_true_divide x mx)) corr0
           in bindE (if sub_pixel
                     then (if int (fst hw) - 2 * buff < 0 \<or> int (snd hw) - 2 * buff < 0
                           then Inl ValueError
                           else xcorr_gauss_fit E corr buff)
                     else bindE (np_argmax (concat corr)) (\<lambda>a.
                       let p = unravel_index a (img_shape corr)
                       in Inr (Fin (real (fst p) - real (fst hw) / 2),
                               Fin (real (snd p) - real (snd hw) / 2)))) (\<lambda>rel.
              bindE (ndimage_shift E img rel) (\<lambda>image_shifted.
                Inr (image_shifted, (np_neg (fst rel), np_neg (snd rel)))))))"

subsection \<open>Gaussian fit\<close>

definition gaussfit_peak :: "ext \<Rightarrow> image \<Rightarrow> error + (real \<times> real)" where
  "gaussfit_peak E im = bindE (gauss_fit E im) (\<lambda>p. Inr (snd p, fst p))"

definition shift_gaussfit ::
  "ext \<Rightarrow> image \<Rightarrow> real \<times> real \<Rightarrow> error + (image \<times> shift_vec)" where
  "shift_gaussfit E img img_ref_peak_idx =
     bindE (gaussfit_peak E (subtract_mean img)) (\<lambda>peak_idx.
       let rel0 = - (fst peak_idx - fst img_ref_peak_idx);
           rel1 = - (snd peak_idx - snd img_ref_peak_idx)
       in bindE (ndimage_shift E img (Fin rel0, Fin rel1)) (\<lambda>image_shifted.
            Inr (image_shifted, (Fin (- rel0), Fin (- rel1)))))"


section \<open>Stacking\<close>

text \<open>
  \<open>(image_ref + np.sum(frames, axis=0)) / d\<close> with \<open>d = N + 1\<close>: the frames are added
  one after the other, then the reference, then the quotient; each float64 operation
  rounds (\<open>rnd\<close>). The sum of no frame is the zero image.
\<close>

definition img_add :: "(real \<Rightarrow> real) \<Rightarrow> image \<Rightarrow> image \<Rightarrow> image" where
  "img_add rnd a b = map2 (map2 (\<lambda>x y. rnd (x + y))) a b"

definition img_sum :: "(real \<Rightarrow> real) \<Rightarrow> nat \<times> nat \<Rightarrow> image list \<Rightarrow> image" where
  "img_sum rnd shp frames =
     (case frames of [] \<Rightarrow> zeros (fst shp) (snd shp) | f # fs \<Rightarrow> foldl (img_add rnd) f fs)"

definition stack_average :: "(real \<Rightarrow> real) \<Rightarrow> image \<Rightarrow> image list \<Rightarrow> real \<Rightarrow> error + image" where
  "stack_average rnd ref frames d =
     (if d = 0 then Inl NonFiniteResult
      else Inr (map (map (\<lambda>x. rnd (x / d)))
                  (img_add rnd ref (img_sum rnd (img_shape ref) frames))))"

text \<open>
  Modelled from the spec: \<open>obssim.median_combine\<close> is not among the sources. The spec
  says the frames are combined by the "per-pixel median across the stack". The median
  of a list is the middle value of the sorted values, the mean of the two middle
  values when their number is even.
\<close>

definition median :: "real list \<Rightarrow> real" where
  "median xs =
     (let s = sort xs; n = length xs
      in if odd n then s ! (n div 2) else (s ! (n div 2 - 1) + s ! (n div 2)) / 2)"

text \<open>
  Modelled from the spec: \<open>obssim.median_combine(stack)\<close>, the median of each pixel over
  the images of the stack.
\<close>

definition median_combine :: "image list \<Rightarrow> image" where
  "median_combine st =
     (case st of [] \<Rightarrow> []
      | f # _ \<Rightarrow> map (\<lambda>i. map (\<lambda>j. median (map (\<lambda>g. g ! i ! j) st)) [0..<length (f ! i)])
                   [0..<length f])"

text \<open>
  The two branches on \<open>stacking_method\<close>; any other name leaves \<open>image_stacked\<close> unbound,
  which raises at the \<open>return\<close>.
\<close>

definition stack_frames ::
  "(real \<Rightarrow> real) \<Rightarrow> string \<Rightarrow> image \<Rightarrow> image list \<Rightarrow> real \<Rightarrow> error + image option" where
  "stack_frames rnd method ref frames d =
     (if method = ''median combine'' then Inr (Some (median_combine (ref # frames)))
      else if method = ''average'' then bindE (stack_average rnd ref frames d) (\<lambda>s. Inr (Some s))
      else Inr None)"

definition deliver :: "image option \<Rightarrow> shift_vec list \<Rightarrow> error + (image \<times> shift_vec list)" where
  "deliver stacked shifts =
     (case stacked of None \<Rightarrow> Inl UnboundLocalError | Some s \<Rightarrow> Inr (s, shifts))"

section \<open>Edge ramp\<close>

text \<open>
  Modelled from the spec: \<open>imutils.centre_crop\<close> is not among the sources.
  \<open>centre_crop(im, (h', w'))\<close> keeps the central \<open>h'\<close> rows and \<open>w'\<close> columns; for
  \<open>h' = h - 2 * buff\<close> that leaves out \<open>buff\<close> rows above and below.
\<close>

definition centre_crop :: "'a list list \<Rightarrow> nat \<times> nat \<Rightarrow> 'a list list" where
  "centre_crop im sz =
     (let hw = img_shape im;
          top = (fst hw - fst sz) div 2;
          left = (snd hw - snd sz) div 2
      in map (\<lambda>r. take (snd sz) (drop left r)) (take (fst sz) (drop top im)))"

text \<open>
  \<open>np.pad(im, buff, mode='linear_ramp')\<close> with the default end value 0: along axis 0
  and then along axis 1, \<open>buff\<close> values are put before the first element \<open>e\<close> of each
  line, \<open>e + (buff - i) * ((0 - e) / buff)\<close> for \<open>i = 0, ..., buff - 1\<close>, and \<open>buff\<close>
  values after the last, \<open>e + (i + 1) * ((0 - e) / buff)\<close>.
\<close>

definition ramp_before :: "nat \<Rightarrow> real \<Rightarrow> real list" where
  "ramp_before b e = map (\<lambda>i. e + real (b - i) * ((0 - e) / real b)) [0..<b]"

definition ramp_after :: "nat \<Rightarrow> real \<Rightarrow> real list" where
  "ramp_after b e = map (\<lambda>i. e + real (i + 1) * ((0 - e) / real b)) [0..<b]"

definition pad_axis0 :: "nat \<Rightarrow> image \<Rightarrow> image" where
  "pad_axis0 b im =
     map (\<lambda>i. map (\<lambda>e. e + real (b - i) * ((0 - e) / real b)) (hd im)) [0..<b]
     @ im
     @ map (\<lambda>i. map (\<lambda>e. e + real (i + 1) * ((0 - e) / real b)) (last im)) [0..<b]"

definition pad_axis1 :: "nat \<Rightarrow> image \<Rightarrow> image" where
  "pad_axis1 b im = map (\<lambda>r. ramp_before b (hd r) @ r @ ramp_after b (last r)) im"

definition pad_linear_ramp :: "nat \<Rightarrow> image \<Rightarrow> image" where
  "pad_linear_ramp b im = (if b = 0 then im else pad_axis1 b (pad_axis0 b im))"

text \<open>
  \<open>edge_ramp(im, buff)\<close> for a 2D image or a 3D stack. Where \<open>buff\<close> is negative or
  \<open>2 * buff\<close> reaches a side of the image, the result depends on what \<open>centre_crop\<close>
  does with a target that is not positive, and \<open>np.pad\<close> cannot ramp from an empty
  axis: the model stops with ValueError there.
\<close>

definition edge_ramp_image :: "image \<Rightarrow> int \<Rightarrow> error + image" where
  "edge_ramp_image im buff =
     (let hw = img_shape im
      in if buff < 0 \<or> \<not> (2 * buff < int (fst hw) \<and> 2 * buff < int (snd hw))
         then Inl ValueError
         else Inr (pad_linear_ramp (nat buff)
                     (centre_crop im (fst hw - 2 * nat buff, snd hw - 2 * nat buff))))"

definition edge_ramp :: "ndarray \<Rightarrow> int \<Rightarrow> error + ndarray" where
  "edge_ramp im buff =
     (case im of
        Arr2 a \<Rightarrow> bindE (edge_ramp_image a buff) (\<lambda>r. Inr (Arr2 r))
      | Arr3 st \<Rightarrow> bindE (mapE (\<lambda>a. edge_ramp_image a buff) st) (\<lambda>rs. Inr (Arr3 rs)))"


section \<open>Options of lucky_imaging\<close>

record li_options =
  mode :: string
  image_ref :: "image option"
  fsr :: real
  bid_area :: "(nat \<times> nat) option"
  N :: "int option"
  centroid_threshold :: real
  sub_pixel_shift :: bool
  buff_xcorr :: int
  buff_fas :: int
  cutoff_freq_frac :: real
  sigma_kernel :: real
  use_vals_outside_cutoff_freq :: bool
  stacking_method :: string
  timeit :: bool

text \<open>The default values of the keyword arguments.\<close>

definition default_options :: li_options where
  "default_options =
     \<lparr>mode = ''serial'', image_ref = None, fsr = 1, bid_area = None, N = None,
      centroid_threshold = 1 / 4, sub_pixel_shift = True, buff_xcorr = 25, buff_fas = 32,
      cutoff_freq_frac = 1, sigma_kernel = 0, use_vals_outside_cutoff_freq = True,
      stacking_method = ''average'', timeit = True\<rparr>"

section \<open>Fourier amplitude selection\<close>

text \<open>\<open>fftshift\<close> moves the element of index 0 to index \<open>n div 2\<close>, along each axis.\<close>

definition fftshift :: "'a list \<Rightarrow> 'a list" where
  "fftshift xs = (let n = length xs in drop (n - n div 2) xs @ take (n - n div 2) xs)"

definition fftshift2 :: "'a list list \<Rightarrow> 'a list list" where
  "fftshift2 im = fftshift (map fftshift im)"

text \<open>
  \<open>U, V = np.meshgrid(np.linspace(-w/2, w/2-1, w), np.linspace(-h/2, h/2-1, h))\<close> with
  true division: \<open>U[i][j] = -w/2 + j\<close> and \<open>V[i][j] = -h/2 + i\<close>. \<open>uv_map\<close> is 1 where
  \<open>sqrt(U**2 + V**2) < cutoff_freq_px\<close>.
\<close>

definition freq_coord :: "nat \<Rightarrow> nat \<Rightarrow> real" where
  "freq_coord n i = - (real n / 2) + real i"

definition uv_map :: "nat \<Rightarrow> nat \<Rightarrow> int \<Rightarrow> nat \<Rightarrow> nat \<Rightarrow> bool" where
  "uv_map h w cutoff_freq_px i j \<longleftrightarrow>
     sqrt ((freq_coord w j) ^ 2 + (freq_coord h i) ^ 2) < of_int cutoff_freq_px"

definition some_coord :: "nat \<Rightarrow> nat \<Rightarrow> (nat \<Rightarrow> nat \<Rightarrow> bool) \<Rightarrow> bool" where
  "some_coord h w P = list_ex (\<lambda>i. list_ex (\<lambda>j. P i j) [0..<w]) [0..<h]"

text \<open>
  \<open>max(1, int(np.round(fsr * N)))\<close> and \<open>int(np.round(cutoff_freq_frac * min(h,w)))\<close>:
  the float product is rounded to the nearest integer.
\<close>

definition N_frames_to_keep :: "(real \<Rightarrow> real) \<Rightarrow> real \<Rightarrow> int \<Rightarrow> nat" where
  "N_frames_to_keep rnd fsr_arg n = nat (max 1 (np_round (rnd (fsr_arg * of_int n))))"

definition cutoff_freq_px :: "(real \<Rightarrow> real) \<Rightarrow> real \<Rightarrow> nat \<Rightarrow> nat \<Rightarrow> int" where
  "cutoff_freq_px rnd cutoff h w = np_round (rnd (cutoff * real (min h w)))"

definition fas_images_fft :: "ext \<Rightarrow> image list \<Rightarrow> cimage list" where
  "fas_images_fft E ramped = map (\<lambda>f. fftshift2 (fft2 E f)) ramped"

definition fas_images_fft_amp :: "ext \<Rightarrow> real \<Rightarrow> cimage list \<Rightarrow> image list" where
  "fas_images_fft_amp E sigma images_fft =
     map (\<lambda>g. let a = map (map cmod) g
              in if sigma \<noteq> 0 then gaussian_smooth E a sigma else a) images_fft"

text \<open>
  \<open>vals_to_keep[i, j] = images_fft[idxs, i, j]\<close> writes into a slot of \<open>k\<close> values: the
  \<open>k\<close> values read, or one value repeated when there is a single frame; any other
  number of values does not fit (\<open>slot_fits\<close>).
\<close>

definition slot_fits :: "nat \<Rightarrow> nat \<Rightarrow> bool" where
  "slot_fits k nf \<longleftrightarrow> k \<le> nf \<or> nf = 1"

definition fill_slot :: "nat \<Rightarrow> 'a list \<Rightarrow> 'a list" where
  "fill_slot k vals = (if length vals = 1 then replicate k (hd vals) else vals)"

definition read_frames :: "cimage list \<Rightarrow> nat list \<Rightarrow> nat \<Rightarrow> nat \<Rightarrow> complex list" where
  "read_frames images_fft idxs i j = map (\<lambda>f. images_fft ! f ! i ! j) idxs"

text \<open>Inside the cutoff: the frames of the \<open>k\<close> largest amplitudes at the coordinate.\<close>

definition idxs_inside :: "image list \<Rightarrow> nat \<Rightarrow> nat \<Rightarrow> nat \<Rightarrow> nat list" where
  "idxs_inside images_fft_amp k i j =
     slice_last k (argsort (map (\<lambda>a. a ! i ! j) images_fft_amp))"

definition fas_inside ::
  "cimage list \<Rightarrow> image list \<Rightarrow> nat \<Rightarrow> (nat \<Rightarrow> nat \<Rightarrow> bool) \<Rightarrow> nat \<Rightarrow> nat \<Rightarrow> complex" where
  "fas_inside images_fft images_fft_amp k inside i j =
     (if inside i j
      then sum_list (fill_slot k (read_frames images_fft (idxs_inside images_fft_amp k i j) i j))
      else 0)"

text \<open>Outside the cutoff: the \<open>k\<close> frames of largest peak pixel, the same at every coordinate.\<close>

definition fas_outside ::
  "cimage list \<Rightarrow> real list \<Rightarrow> nat \<Rightarrow> (nat \<Rightarrow> nat \<Rightarrow> bool) \<Rightarrow> nat \<Rightarrow> nat \<Rightarrow> complex" where
  "fas_outside images_fft max_pixel_vals k inside i j =
     (if inside i j then 0
      else sum_list (fill_slot k
             (read_frames images_fft (slice_last k (argsort max_pixel_vals)) i j)))"

definition fas_fft_sum ::
  "nat \<Rightarrow> nat \<Rightarrow> (nat \<Rightarrow> nat \<Rightarrow> complex) \<Rightarrow> (nat \<Rightarrow> nat \<Rightarrow> complex) \<Rightarrow> cimage" where
  "fas_fft_sum h w outs ins = map (\<lambda>i. map (\<lambda>j. outs i j + ins i j) [0..<w]) [0..<h]"

definition fas_image :: "ext \<Rightarrow> nat \<Rightarrow> cimage \<Rightarrow> image" where
  "fas_image E k fft_sum =
     map (map cmod) (ifft2 E (fftshift2 (map (map (\<lambda>z. z / of_nat k)) fft_sum)))"

text \<open>
  The branch of \<open>lucky_imaging\<close> for 'fourier amplitude selection', from the shifted
  frames on: \<open>fas_sum\<close> is the array \<open>fft_sum\<close> made from the ramped frames, and
  \<open>fas_stack\<close> the stacked image. A slot that does not fit raises ValueError inside the
  cutoff; outside, the \<open>except\<close> clause calls the debugger.
\<close>

definition fas_sum ::
  "ext \<Rightarrow> image list \<Rightarrow> image \<Rightarrow> int \<Rightarrow> li_options \<Rightarrow> error + cimage" where
  "fas_sum E ramped ref n opts =
     (let h = fst (img_shape ref);
          w = snd (img_shape ref);
          k = N_frames_to_keep (fl E) (fsr opts) n;
          images_fft = fas_images_fft E ramped;
          inside = uv_map h w (cutoff_freq_px (fl E) (cutoff_freq_frac opts) h w);
          fits = slot_fits k (length ramped)
      in bindE (if use_vals_outside_cutoff_freq opts
                then bindE (mapE (\<lambda>f. list_max (concat f)) ramped) (\<lambda>max_pixel_vals.
                       if \<not> fits \<and> some_coord h w (\<lambda>i j. \<not> inside i j) then Inl Breakpoint
                       else Inr (fas_outside images_fft max_pixel_vals k inside))
                else Inr (\<lambda>i j. 0)) (\<lambda>outs.
           let images_fft_amp = fas_images_fft_amp E (sigma_kernel opts) images_fft
           in if \<not> fits \<and> some_coord h w inside then Inl ValueError
              else Inr (fas_fft_sum h w outs (fas_inside images_fft images_fft_amp k inside))))"

definition fas_stack ::
  "ext \<Rightarrow> image list \<Rightarrow> image \<Rightarrow> int \<Rightarrow> li_options \<Rightarrow> error + image" where
  "fas_stack E images_shifted ref n opts =
     bindE (edge_ramp (Arr3 images_shifted) (buff_fas opts)) (\<lambda>arr.
       let ramped = (case arr of Arr3 st \<Rightarrow> st | Arr2 a \<Rightarrow> [a])
       in bindE (fas_sum E ramped ref n opts) (\<lambda>fft_sum.
            Inr (fas_image E (N_frames_to_keep (fl E) (fsr opts) n) fft_sum)))"

subsection \<open>The discrete Fourier transform\<close>

text \<open>
  \<open>fft2\<close> and \<open>ifft2\<close> are library functions. What they compute, up to rounding, is the
  two-dimensional discrete Fourier transform
  \<open>F[u][v] = sum_m sum_n x[m][n] * exp(-2 pi i (u m / h + v n / w))\<close> and its inverse
  \<open>x[m][n] = (1 / (h w)) * sum_u sum_v F[u][v] * exp(2 pi i (u m / h + v n / w))\<close>.
  \<open>ext_dft\<close> is the instance of the interface with these two transforms and float64
  rounding; the library functions of the alignment are those of \<open>ext_plain\<close>.
\<close>

definition twiddle :: "nat \<Rightarrow> nat \<Rightarrow> complex" where
  "twiddle n e = cis (- (2 * pi * real e / real n))"

definition dft2 :: "image \<Rightarrow> cimage" where
  "dft2 im =
     (let h = fst (img_shape im); w = snd (img_shape im)
      in map (\<lambda>u. map (\<lambda>v. \<Sum>m\<leftarrow>[0..<h]. \<Sum>n\<leftarrow>[0..<w].
                 complex_of_real (im ! m ! n) * twiddle h (u * m) * twiddle w (v * n))
               [0..<w]) [0..<h])"

definition idft2 :: "cimage \<Rightarrow> cimage" where
  "idft2 F =
     (let h = fst (img_shape F); w = snd (img_shape F)
      in map (\<lambda>m. map (\<lambda>n. (\<Sum>u\<leftarrow>[0..<h]. \<Sum>v\<leftarrow>[0..<w].
                 F ! u ! v * cnj (twiddle h (u * m)) * cnj (twiddle w (v * n))) / of_nat (h * w))
               [0..<w]) [0..<h])"

definition ext_dft :: ext where
  "ext_dft = ext_plain\<lparr>fl := fl64, fft2 := dft2, ifft2 := idft2\<rparr>"

section \<open>lucky_imaging\<close>

text \<open>
  What the choice of method prepares: the result itself for 'blind stack', which
  returns at once, and otherwise the function applied to each frame, giving the
  shifted frame, the shift vector and, for 'peak pixel' only, the peak pixel value.
\<close>

type_synonym frame_fun = "image \<Rightarrow> error + (image \<times> shift_vec \<times> real option)"

datatype li_setup = Early "image \<times> shift_vec list" | ShiftFun frame_fun

definition supported_methods :: "string list" where
  "supported_methods =
     [''cross-correlation'', ''gaussian fit'', ''peak pixel'', ''centroid'', ''blind stack'',
      ''fourier amplitude selection'', ''fas'']"

definition xcorr_fun :: "ext \<Rightarrow> image \<Rightarrow> li_options \<Rightarrow> frame_fun" where
  "xcorr_fun E ref opts im =
     bindE (shift_xcorr E im ref (buff_xcorr opts) (sub_pixel_shift opts))
       (\<lambda>r. Inr (fst r, snd r, None))"

definition pp_fun :: "ext \<Rightarrow> int \<times> int \<Rightarrow> li_options \<Rightarrow> frame_fun" where
  "pp_fun E img_ref_peak_idx opts im =
     bindE (shift_pp E im img_ref_peak_idx (fsr opts) (bid_area opts))
       (\<lambda>r. Inr (fst r, fst (snd r), Some (snd (snd r))))"

definition li_method_setup ::
  "ext \<Rightarrow> string \<Rightarrow> image list \<Rightarrow> image \<Rightarrow> int \<Rightarrow> li_options \<Rightarrow> error + li_setup" where
  "li_method_setup E m imgs ref n opts =
     (if m = ''cross-correlation'' then Inr (ShiftFun (xcorr_fun E ref opts))
      else if m = ''gaussian fit'' then
        bindE (gaussfit_peak E (subtract_mean ref)) (\<lambda>img_ref_peak_idx.
          Inr (ShiftFun (\<lambda>im. bindE (shift_gaussfit E im img_ref_peak_idx)
                                (\<lambda>r. Inr (fst r, snd r, None)))))
      else if m = ''peak pixel'' then
        (let sub_image_ref = (case bid_area opts of Some b \<Rightarrow> centre_crop ref b | None \<Rightarrow> ref)
         in bindE (argmax (concat sub_image_ref)) (\<lambda>a.
              let p = unravel_index a (img_shape sub_image_ref)
              in Inr (ShiftFun (pp_fun E (int (fst p), int (snd p)) opts))))
      else if m = ''centroid'' then
        bindE (threshold_image (centroid_threshold opts) ref) (\<lambda>bg.
          Inr (ShiftFun (\<lambda>im. bindE (shift_centroid E im (centroid bg) (centroid_threshold opts))
                                (\<lambda>r. Inr (fst r, snd r, None)))))
      else if m = ''blind stack'' then
        (if n < 0 then Inl ValueError
         else bindE (stack_frames (fl E) (stacking_method opts) ref imgs (of_int (n + 1)))
                (\<lambda>stacked. bindE (deliver stacked (replicate (nat n) (Fin 0, Fin 0)))
                   (\<lambda>r. Inr (Early r))))
      else if m = ''fourier amplitude selection'' \<or> m = ''fas'' then
        Inr (ShiftFun (xcorr_fun E ref opts))
      else Inl UserWarning)"

text \<open>
  The frames are processed by \<open>pool.map\<close> over the whole of \<open>images\<close> in mode 'parallel'
  (the results come back in the order of the frames), and by a loop over
  \<open>range(N)\<close> in mode 'serial'. \<open>peak_pixel_vals\<close> is bound in parallel mode for
  'peak pixel' with \<open>fsr < 1\<close>, and in serial mode for 'peak pixel' once the loop has
  run for \<open>k = 0\<close>.
\<close>

definition li_run ::
  "frame_fun \<Rightarrow> string \<Rightarrow> image list \<Rightarrow> int \<Rightarrow> li_options \<Rightarrow>
   error + (image list \<times> shift_vec list \<times> real list option)" where
  "li_run shift_fun m imgs n opts =
     (if mode opts = ''parallel'' then
        bindE (mapE shift_fun imgs) (\<lambda>results.
          if results = [] then Inl IndexError
          else Inr (map fst results, map (\<lambda>r. fst (snd r)) results,
                    if m = ''peak pixel'' \<and> fsr opts < 1
                    then Some (map (\<lambda>r. the (snd (snd r))) results) else None))
      else if mode opts = ''serial'' then
        (if n < 0 then Inl ValueError
         else bindE (mapE (\<lambda>k. if k < length imgs then shift_fun (imgs ! k) else Inl IndexError)
                       [0..<nat n]) (\<lambda>results.
                Inr (map fst results, map (\<lambda>r. fst (snd r)) results,
                     if m = ''peak pixel'' \<and> 0 < n
                     then Some (map (\<lambda>r. the (snd (snd r))) results) else None)))
      else Inl UserWarning)"

text \<open>
  The stacking after the frames are shifted. For 'peak pixel' with \<open>fsr < 1\<close> the
  variable \<open>N\<close> becomes the float \<open>np.ceil(fsr * N)\<close> of the float product; the closing
  message formats \<open>N\<close> with \<open>{:d}\<close>, which raises ValueError for a float, when
  \<open>timeit\<close> is set.
\<close>

definition li_stack ::
  "ext \<Rightarrow> string \<Rightarrow> image list \<Rightarrow> shift_vec list \<Rightarrow> real list option \<Rightarrow> image \<Rightarrow> int \<Rightarrow>
   li_options \<Rightarrow> error + (image \<times> shift_vec list)" where
  "li_stack E m images_shifted rel_shift_idxs peak_pixel_vals ref n opts =
     (if m = ''peak pixel'' \<and> fsr opts < 1 then
        (case peak_pixel_vals of
           None \<Rightarrow> Inl UnboundLocalError
         | Some vals \<Rightarrow>
             let sorted_idx = rev (argsort vals);
                 n_keep = \<lceil>fl E (fsr opts * of_int n)\<rceil>;
                 kept = map (\<lambda>i. images_shifted ! i) (slice_to n_keep sorted_idx)
             in if timeit opts then Inl ValueError
                else bindE (stack_frames (fl E) (stacking_method opts) ref kept
                              (of_int (n_keep + 1)))
                       (\<lambda>stacked. deliver stacked rel_shift_idxs))
      else if m = ''fourier amplitude selection'' \<or> m = ''fas'' then
        bindE (fas_stack E images_shifted ref n opts) (\<lambda>s. Inr (s, rel_shift_idxs))
      else
        bindE (stack_frames (fl E) (stacking_method opts) ref images_shifted (of_int (n + 1)))
          (\<lambda>stacked. deliver stacked rel_shift_idxs))"

definition lucky_imaging ::
  "ext \<Rightarrow> ndarray \<Rightarrow> string \<Rightarrow> li_options \<Rightarrow> error + (image \<times> shift_vec list)" where
  "lucky_imaging E images li_method opts =
     bindE (li_error_check images (image_ref opts) (N opts)) (\<lambda>chk.
       let imgs = fst chk; ref = fst (snd chk); n = snd (snd chk); m = lower li_method
       in bindE (li_method_setup E m imgs ref n opts) (\<lambda>prep.
            case prep of
              Early r \<Rightarrow> Inr r
            | ShiftFun shift_fun \<Rightarrow>
                bindE (li_run shift_fun m imgs n opts) (\<lambda>run.
                  li_stack E m (fst run) (fst (snd run)) (snd (snd run)) ref n opts)))"


section \<open>Basic facts\<close>

lemma bindE_simps [simp]: "bindE (Inl e) f = Inl e" "bindE (Inr x) f = f x"
  by (simp_all add: bindE_def)

lemma lower_names:
  "lower ''cross-correlation'' = ''cross-correlation''"
  "lower ''peak pixel'' = ''peak pixel''"
  "lower ''blind stack'' = ''blind stack''"
  "lower ''centroid'' = ''centroid''"
  "lower ''fas'' = ''fas''"
  "lower ''drizzle'' = ''drizzle''"
  by code_simp+

section \<open>Alignment errors: what is returned\<close>

text \<open>
  C9. For two arrays of N rows and 2 columns, \<open>alignment_err\<close> returns N rows of 3
  columns: the row error and the column error, true minus recovered, times the plate
  scale, and the square root of the sum of their squares. The pixel-unit errors are
  these values divided by the same plate scale. Both input arrays are as they were.
  With \<open>plotHist\<close> the histogram needs at least one row and a drawing routine that
  returns.
\<close>

theorem alignment_err_result:
  assumes len: "length out_idxs = length in_idxs"
    and plt: "plotHist \<longrightarrow> in_idxs \<noteq> [] \<and> (\<forall>e. plot e = Inr ())"
  shows "\<exists>r. alignment_err plot in_idxs out_idxs osys plotHist = Inr r
    \<and> length (errs_as r) = length in_idxs
    \<and> length (errs_px r) = length in_idxs
    \<and> (\<forall>k < length in_idxs.
         (let e0 = (fst (in_idxs ! k) - fst (out_idxs ! k)) * plate_scale_as_px osys;
              e1 = (snd (in_idxs ! k) - snd (out_idxs ! k)) * plate_scale_as_px osys;
              e2 = sqrt (e0 ^ 2 + e1 ^ 2)
          in errs_as r ! k = (e0, e1, e2)
           \<and> errs_px r ! k = (np_true_divide e0 (plate_scale_as_px osys),
                               np_true_divide e1 (plate_scale_as_px osys),
                               np_true_divide e2 (plate_scale_as_px osys))))
    \<and> in_idxs_after r = in_idxs \<and> out_idxs_after r = out_idxs"
  using assms
  by (auto simp: alignment_err_def plot_alignment_err_histogram_def Let_def err_row_def px_row_def)

theorem alignment_err_result_witness:
  "\<exists>r. alignment_err (\<lambda>e. Inr ()) [(3, 4)] [(0, 0)] \<lparr>plate_scale_as_px = 2\<rparr> True = Inr r
     \<and> errs_as r ! 0 = (6, 8, 10) \<and> errs_px r ! 0 = (Fin 3, Fin 4, Fin 5)
     \<and> in_idxs_after r = [(3, 4)] \<and> out_idxs_after r = [(0, 0)]"
proof -
  have s: "sqrt 100 = 10" using real_sqrt_abs [of 10] by simp
  show ?thesis
    using alignment_err_result [of "[(0, 0)]" "[(3, 4)]" True "\<lambda>e. Inr ()" "\<lparr>plate_scale_as_px = 2\<rparr>"]
    by (auto simp: Let_def s np_true_divide_def)
qed


section \<open>Facts about the stages of lucky_imaging\<close>

lemma mapE_length: "mapE f xs = Inr ys \<Longrightarrow> length ys = length xs"
  by (induction xs arbitrary: ys) (auto split: sum.splits)

lemma bindE_eq_Inr: "bindE m f = Inr y \<longleftrightarrow> (\<exists>x. m = Inr x \<and> f x = Inr y)"
  by (cases m) auto

lemma deliver_shifts: "deliver stacked shifts = Inr (s, sh) \<Longrightarrow> sh = shifts"
  by (auto simp: deliver_def split: option.splits)

lemma li_run_length:
  assumes "li_run shift_fun m imgs n opts = Inr run"
  shows "length (fst (snd run)) = (if mode opts = ''parallel'' then length imgs else nat n)"
  using assms
  by (auto simp: li_run_def bindE_eq_Inr split: if_splits dest: mapE_length)

lemma li_stack_shifts:
  assumes "li_stack E m images_shifted rel_shift_idxs peaks ref n opts = Inr (s, sh)"
  shows "sh = rel_shift_idxs"
  using assms
  by (auto simp: li_stack_def bindE_eq_Inr Let_def split: if_splits option.splits dest: deliver_shifts)

lemma li_method_setup_early:
  assumes "li_method_setup E m imgs ref n opts = Inr (Early (s, sh))"
  shows "length sh = nat n"
  using assms
  by (auto simp: li_method_setup_def bindE_eq_Inr Let_def split: if_splits dest!: deliver_shifts)

lemma lucky_imaging_shift_rows:
  assumes run: "lucky_imaging E images meth opts = Inr (stacked, shifts)"
    and chk: "li_error_check images (image_ref opts) (N opts) = Inr (imgs, ref, n)"
    and n: "n = int (length imgs)"
  shows "length shifts = length imgs"
proof -
  from run chk obtain su where
    su: "li_method_setup E (lower meth) imgs ref n opts = Inr su"
    and rest: "(case su of Early r \<Rightarrow> Inr r
        | ShiftFun shift_fun \<Rightarrow>
            bindE (li_run shift_fun (lower meth) imgs n opts) (\<lambda>run.
              li_stack E (lower meth) (fst run) (fst (snd run)) (snd (snd run)) ref n opts))
        = Inr (stacked, shifts)"
    by (auto simp: lucky_imaging_def bindE_eq_Inr Let_def)
  show ?thesis
  proof (cases su)
    case (Early r)
    with rest su have "li_method_setup E (lower meth) imgs ref n opts = Inr (Early (stacked, shifts))"
      by simp
    from li_method_setup_early [OF this] n show ?thesis by simp
  next
    case (ShiftFun sf)
    with rest obtain run where r: "li_run sf (lower meth) imgs n opts = Inr run"
      and st: "li_stack E (lower meth) (fst run) (fst (snd run)) (snd (snd run)) ref n opts = Inr (stacked, shifts)"
      by (auto simp: bindE_eq_Inr)
    from li_stack_shifts [OF st] li_run_length [OF r] n show ?thesis by auto
  qed
qed

section \<open>The reference defaults to the first frame\<close>

text \<open>
  C7, as stated, at a stack of three frames with no reference and \<open>N = 1\<close> supplied:
  the first frame becomes the reference and the other two frames are kept, but \<open>N\<close>
  stays 1 and is not redefined as the stack length minus one, which is 2.
\<close>

theorem li_error_check_N_given_counterexample:
  "li_error_check (Arr3 [[[1]], [[2]], [[3]]]) None (Some 1) = Inr ([[[2]], [[3]]], [[1]], 1)
   \<and> (1::int) \<noteq> int (length [[[1::real]], [[2]], [[3]]]) - 1"
  by (simp add: li_error_check_def flatten3_def truthy_def)

text \<open>
  C7, amended. For every 3D stack with at least one pixel, no reference image and no
  \<open>N\<close> supplied (\<open>None\<close> or 0), the input check takes the first frame as the
  reference, keeps the remaining frames and sets \<open>N\<close> to the stack length minus one;
  whenever \<open>lucky_imaging\<close> returns, the shift array has stack length minus one rows.
\<close>

theorem first_frame_is_reference:
  assumes noref: "image_ref opts = None"
    and noN: "\<not> truthy (N opts)"
    and nonempty: "flatten3 st \<noteq> []"
  shows "li_error_check (Arr3 st) (image_ref opts) (N opts) = Inr (tl st, hd st, int (length st) - 1)
    \<and> (lucky_imaging E (Arr3 st) meth opts = Inr (stacked, shifts) \<longrightarrow> length shifts = length st - 1)"
proof (intro conjI impI)
  from nonempty have ne: "st \<noteq> []" by (auto simp: flatten3_def)
  show chk: "li_error_check (Arr3 st) (image_ref opts) (N opts) = Inr (tl st, hd st, int (length st) - 1)"
    unfolding li_error_check_def using noN nonempty by (simp add: noref)
  have n: "int (length st) - 1 = int (length (tl st))" using ne by (cases st) simp_all
  assume run: "lucky_imaging E (Arr3 st) meth opts = Inr (stacked, shifts)"
  have "length shifts = length (tl st)"
    by (rule lucky_imaging_shift_rows [OF run chk n])
  then show "length shifts = length st - 1" by simp
qed

theorem first_frame_is_reference_witness:
  "li_error_check (Arr3 [[[1]], [[2]], [[6]]]) None None = Inr ([[[2]], [[6]]], [[1]], 2)
   \<and> lucky_imaging ext_plain (Arr3 [[[1]], [[2]], [[6]]]) ''blind stack'' default_options
       = Inr ([[3]], [(Fin 0, Fin 0), (Fin 0, Fin 0)])
   \<and> length [(Fin 0, Fin 0), (Fin 0, Fin 0)] = length [[[1::real]], [[2]], [[6]]] - 1"
proof -
  have run: "lucky_imaging ext_plain (Arr3 [[[1]], [[2]], [[6]]]) ''blind stack'' default_options
       = Inr ([[3]], [(Fin 0, Fin 0), (Fin 0, Fin 0)])"
    by (simp add: lucky_imaging_def li_error_check_def flatten3_def truthy_def default_options_def
        lower_names li_method_setup_def stack_frames_def stack_average_def img_add_def img_sum_def
        ext_plain_def deliver_def Let_def numeral_2_eq_2)
  show ?thesis
    using first_frame_is_reference [of default_options "[[[1]], [[2]], [[6]]]" ext_plain
        "''blind stack''" "[[3]]" "[(Fin 0, Fin 0), (Fin 0, Fin 0)]"] run
    by (simp add: default_options_def truthy_def flatten3_def)
qed

section \<open>Unsupported methods\<close>

text \<open>
  C8. For every method name whose lower-case form is not one of the supported names,
  the choice of the method raises UserWarning, whatever the frames; \<open>lucky_imaging\<close>
  ends with the error of the input check if there is one and with this UserWarning
  otherwise, so the stage that processes the frames and the stacking are never reached.
  The input check raises UserWarning, or IndexError on an array with no element.
\<close>

theorem unsupported_method_fails:
  assumes "lower li_method \<notin> set supported_methods"
  shows "(\<forall>imgs ref n. li_method_setup E (lower li_method) imgs ref n opts = Inl UserWarning)
    \<and> lucky_imaging E images li_method opts =
        (case li_error_check images (image_ref opts) (N opts) of
           Inl e \<Rightarrow> Inl e | Inr c \<Rightarrow> Inl UserWarning)
    \<and> (lucky_imaging E images li_method opts = Inl UserWarning
       \<or> lucky_imaging E images li_method opts = Inl IndexError)"
proof -
  have su: "li_method_setup E (lower li_method) imgs ref n opts = Inl UserWarning" for imgs ref n
    using assms by (simp add: li_method_setup_def supported_methods_def)
  have chk: "li_error_check images r k = Inl e \<Longrightarrow> e = UserWarning \<or> e = IndexError" for r k e
    by (auto simp: li_error_check_def split: if_splits ndarray.splits option.splits)
  have li: "lucky_imaging E images li_method opts =
        (case li_error_check images (image_ref opts) (N opts) of
           Inl e \<Rightarrow> Inl e | Inr c \<Rightarrow> Inl UserWarning)"
    by (simp add: lucky_imaging_def su Let_def bindE_def split: sum.splits)
  show ?thesis using su li chk [of "image_ref opts" "N opts"]
    by (auto split: sum.splits)
qed

theorem unsupported_method_fails_witness:
  "lower ''Drizzle'' \<notin> set supported_methods
   \<and> lucky_imaging ext_plain (Arr3 [[[1]], [[2]]]) ''Drizzle'' default_options = Inl UserWarning"
proof -
  have l: "lower ''Drizzle'' = ''drizzle''" by code_simp
  have m: "lower ''Drizzle'' \<notin> set supported_methods" by (simp add: l supported_methods_def)
  show ?thesis
    using unsupported_method_fails [OF m, of ext_plain default_options "Arr3 [[[1]], [[2]]]"] m
    by (simp add: li_error_check_def flatten3_def truthy_def default_options_def)
qed

section \<open>Centroid of an image without mass\<close>

lemma sum_list_zeros: "\<forall>x\<in>set xs. x = (0::real) \<Longrightarrow> sum_list xs = 0"
  by (induction xs) auto

lemma moments_zero:
  assumes "\<forall>x\<in>set (concat bg). x = (0::real)"
  shows "moment_00 bg = 0" "moment_01 bg = 0" "moment_10 bg = 0"
proof -
  show "moment_00 bg = 0" using assms by (simp add: moment_00_def sum_list_zeros)
  have r: "\<And>row x. row \<in> set bg \<Longrightarrow> x \<in> set row \<Longrightarrow> x = 0" using assms by auto
  show "moment_01 bg = 0"
    unfolding moment_01_def
    by (rule sum_list_zeros) (auto dest: r [OF nth_mem])
  show "moment_10 bg = 0"
    unfolding moment_10_def
    by (rule sum_list_zeros) (auto simp: r)
qed

text \<open>
  C3, as stated, at a frame of negative pixels with the default threshold 0.25: every
  pixel is below \<open>0.25 * max\<close> and is zeroed, the zeroth moment is 0, and the centroid
  step gives NaN coordinates without an error; \<open>shift_centroid\<close> returns a NaN shift
  vector.
\<close>

theorem centroid_nan_counterexample:
  "centroid_rel_shift [[-1, -2], [-3, -4]] (Fin 0, Fin 0) (1 / 4) = Inr (NaN, NaN)
   \<and> shift_centroid ext_plain [[-1, -2], [-3, -4]] (Fin 0, Fin 0) (1 / 4)
       = Inr ([[-1, -2], [-3, -4]], (NaN, NaN))"
  by (simp add: shift_centroid_def centroid_rel_shift_def threshold_image_def list_max_def centroid_def
      moment_00_def moment_01_def moment_10_def np_true_divide_def ext_plain_def)

text \<open>
  C3, amended. For every frame whose thresholded copy has only zero pixels, the
  centroid is (NaN, NaN): the two divisions by the zeroth moment raise nothing. The
  displacement is (NaN, NaN) as well, and \<open>shift_centroid\<close> hands it to the
  interpolating shift and returns (NaN, NaN) as the shift vector when that returns.
\<close>

theorem centroid_zero_mass_is_nan:
  assumes thr: "threshold_image thr img = Inr bg"
    and zero: "\<forall>x\<in>set (concat bg). x = 0"
  shows "centroid bg = (NaN, NaN)
    \<and> centroid_rel_shift img img_ref_peak_idx thr = Inr (NaN, NaN)
    \<and> shift_centroid E img img_ref_peak_idx thr
        = bindE (ndimage_shift E img (NaN, NaN)) (\<lambda>image_shifted. Inr (image_shifted, (NaN, NaN)))"
proof -
  have c: "centroid bg = (NaN, NaN)"
    by (simp add: centroid_def moments_zero [OF zero] np_true_divide_def)
  have s: "np_sub x NaN = NaN" for x by (cases x) simp_all
  have r: "centroid_rel_shift img img_ref_peak_idx thr = Inr (NaN, NaN)"
    by (simp add: centroid_rel_shift_def thr c s)
  show ?thesis by (simp add: c r shift_centroid_def)
qed

theorem centroid_zero_mass_is_nan_witness:
  "threshold_image (1 / 4) [[-1, -2], [-3, -4]] = Inr [[0, 0], [0, 0]]
   \<and> centroid [[0, 0], [0, 0]] = (NaN, NaN)
   \<and> shift_centroid ext_plain [[-1, -2], [-3, -4]] (Fin 0, Fin 0) (1 / 4)
       = Inr ([[-1, -2], [-3, -4]], (NaN, NaN))"
proof -
  have t: "threshold_image (1 / 4) [[-1, -2], [-3, -4]] = Inr [[0, 0], [0, 0]]"
    by (simp add: threshold_image_def list_max_def)
  show ?thesis
    using centroid_zero_mass_is_nan [OF t, of "(Fin 0, Fin 0)" ext_plain] t
    by (simp add: ext_plain_def)
qed

section \<open>Peak pixel alignment of one frame\<close>

lemma argmax_scan_first_max:
  assumes "best < length ps" "i = length ps" "ps ! best = bv"
    and "\<forall>j < length ps. ps ! j \<le> bv" "\<forall>j < best. ps ! j < bv"
  shows "let a = argmax_scan (\<lambda>a b. b < a) best (bv :: real) i xs
         in a < length (ps @ xs) \<and> (\<forall>j < length (ps @ xs). (ps @ xs) ! j \<le> (ps @ xs) ! a)
            \<and> (\<forall>j < a. (ps @ xs) ! j < (ps @ xs) ! a)"
  using assms
proof (induction xs arbitrary: ps best bv i)
  case Nil
  then show ?case by (simp add: Let_def)
next
  case (Cons x xs)
  show ?case
  proof (cases "bv < x")
    case True
    have "let a = argmax_scan (\<lambda>a b. b < a) (length ps) x (Suc (length ps)) xs
         in a < length ((ps @ [x]) @ xs) \<and> (\<forall>j < length ((ps @ [x]) @ xs). ((ps @ [x]) @ xs) ! j \<le> ((ps @ [x]) @ xs) ! a)
            \<and> (\<forall>j < a. ((ps @ [x]) @ xs) ! j < ((ps @ [x]) @ xs) ! a)"
    proof (rule Cons.IH)
      show "\<forall>j<length (ps @ [x]). (ps @ [x]) ! j \<le> x"
      proof (intro allI impI)
        fix j assume "j < length (ps @ [x])"
        then consider "j < length ps" | "j = length ps" by fastforce
        then show "(ps @ [x]) ! j \<le> x"
        proof cases
          case 1
          with Cons.prems have "ps ! j \<le> bv" by blast
          with True 1 show ?thesis by (simp add: nth_append)
        next
          case 2
          then show ?thesis by simp
        qed
      qed
      show "\<forall>j<length ps. (ps @ [x]) ! j < x"
      proof (intro allI impI)
        fix j assume j: "j < length ps"
        with Cons.prems have "ps ! j \<le> bv" by blast
        with True j show "(ps @ [x]) ! j < x" by (simp add: nth_append)
      qed
    qed auto
    with True Cons.prems show ?thesis by simp
  next
    case False
    have "let a = argmax_scan (\<lambda>a b. b < a) best bv (Suc (length ps)) xs
         in a < length ((ps @ [x]) @ xs) \<and> (\<forall>j < length ((ps @ [x]) @ xs). ((ps @ [x]) @ xs) ! j \<le> ((ps @ [x]) @ xs) ! a)
            \<and> (\<forall>j < a. ((ps @ [x]) @ xs) ! j < ((ps @ [x]) @ xs) ! a)"
    proof (rule Cons.IH)
      show "\<forall>j<length (ps @ [x]). (ps @ [x]) ! j \<le> bv"
      proof (intro allI impI)
        fix j assume "j < length (ps @ [x])"
        then consider "j < length ps" | "j = length ps" by fastforce
        then show "(ps @ [x]) ! j \<le> bv"
        proof cases
          case 1
          with Cons.prems have "ps ! j \<le> bv" by blast
          with 1 show ?thesis by (simp add: nth_append)
        next
          case 2
          with False show ?thesis by simp
        qed
      qed
      show "\<forall>j<best. (ps @ [x]) ! j < bv"
        using Cons.prems by (auto simp: nth_append)
      show "(ps @ [x]) ! best = bv" using Cons.prems by (simp add: nth_append)
    qed (use Cons.prems in auto)
    with False Cons.prems show ?thesis by simp
  qed
qed

lemma argmax_first_max:
  assumes "argmax xs = Inr a"
  shows "a < length xs \<and> (\<forall>j < length xs. xs ! j \<le> xs ! a) \<and> (\<forall>j < a. xs ! j < xs ! a)"
proof (cases xs)
  case Nil
  with assms show ?thesis by (simp add: argmax_def)
next
  case (Cons x r)
  with assms have a: "a = argmax_scan (\<lambda>a b. b < a) 0 x 1 r" by (simp add: argmax_def)
  from argmax_scan_first_max [of 0 "[x]" 1 x r] show ?thesis
    unfolding Cons a by (simp add: Let_def)
qed

lemma list_max_Max: "m = Max (set xs)" if "list_max xs = Inr m"
proof (cases xs)
  case Nil
  then show ?thesis using that by (simp add: list_max_def)
next
  case (Cons x r)
  have "fold (\<lambda>y s. max s y) r x = fold max r x"
    by (rule arg_cong [where f = "\<lambda>f. fold f r x"]) (auto simp: fun_eq_iff max.commute)
  with Cons that show ?thesis
    by (simp add: list_max_def foldl_conv_fold Max.set_eq_fold del: set_simps)
qed

text \<open>
  Without a bid area, \<open>shift_pp\<close> finds the first index, in row-major order, of the
  largest pixel of the whole frame, shifts the frame by the reference peak index minus
  this index, and returns the frame index minus the reference index as the shift
  vector, with the largest pixel value.
\<close>

lemma shift_pp_whole_image:
  assumes "shift_pp E img (r0, r1) fsr_arg None = Inr (image_shifted, v, peak)"
  shows "\<exists>a. a < length (concat img)
      \<and> (\<forall>j < length (concat img). concat img ! j \<le> concat img ! a)
      \<and> (\<forall>j < a. concat img ! j < concat img ! a)
      \<and> (let p = unravel_index a (img_shape img)
         in ndimage_shift E img (Fin (of_int (r0 - int (fst p))), Fin (of_int (r1 - int (snd p))))
              = Inr image_shifted
          \<and> v = (Fin (of_int (int (fst p) - r0)), Fin (of_int (int (snd p) - r1))))
      \<and> peak = Max (set (concat img))"
  using assms
  by (auto simp: shift_pp_def bindE_eq_Inr Let_def dest!: argmax_first_max list_max_Max)

text \<open>
  C5, at a frame with a bid area: the function reads the unbound name \<open>images\<close> and
  raises NameError, where the claim has it search the bid area for the peak.
\<close>

theorem shift_pp_bid_area_NameError:
  "shift_pp E [[1, 2], [3, 4]] (0, 0) 1 (Some (1, 1)) = Inl NameError"
  by (simp add: shift_pp_def)

section \<open>The edge ramp keeps the shape\<close>

lemma is_image_rows: "is_image h w im \<Longrightarrow> i < h \<Longrightarrow> length (im ! i) = w"
  by (simp add: is_image_def list_all_length)

lemma is_image_shape: "is_image h w im \<Longrightarrow> 0 < h \<Longrightarrow> img_shape im = (h, w)"
  by (cases im) (auto simp: is_image_def img_shape_def)

lemma centre_crop_margin:
  assumes im: "is_image h w im" and b: "2 * b < h" "2 * b < w"
  shows "is_image (h - 2 * b) (w - 2 * b) (centre_crop im (h - 2 * b, w - 2 * b))"
    and "\<And>i j. i < h - 2 * b \<Longrightarrow> j < w - 2 * b \<Longrightarrow>
           centre_crop im (h - 2 * b, w - 2 * b) ! i ! j = im ! (b + i) ! (b + j)"
proof -
  have sh: "img_shape im = (h, w)" using im b by (intro is_image_shape) auto
  have top: "(h - (h - 2 * b)) div 2 = b" "(w - (w - 2 * b)) div 2 = b" using b by auto
  have len: "length im = h" using im by (simp add: is_image_def)
  have rows: "\<And>r. r \<in> set im \<Longrightarrow> length r = w" using im by (simp add: is_image_def list_all_iff)
  show "is_image (h - 2 * b) (w - 2 * b) (centre_crop im (h - 2 * b, w - 2 * b))"
    using b len
    by (auto simp: is_image_def centre_crop_def sh top Let_def list_all_iff min_def
        dest!: in_set_takeD in_set_dropD rows)
  fix i j assume i: "i < h - 2 * b" and j: "j < w - 2 * b"
  have "length (im ! (b + i)) = w" using im i by (intro is_image_rows [of h]) auto
  then show "centre_crop im (h - 2 * b, w - 2 * b) ! i ! j = im ! (b + i) ! (b + j)"
    using i j len by (simp add: centre_crop_def sh top Let_def)
qed

lemma pad_axis0_shape:
  assumes "is_image h w c" "0 < h"
  shows "is_image (b + h + b) w (pad_axis0 b c)"
proof -
  from assms have ne: "c \<noteq> []" by (auto simp: is_image_def)
  then have "hd c \<in> set c" "last c \<in> set c" by simp_all
  with assms have hl: "length (hd c) = w" "length (last c) = w"
    by (auto simp: is_image_def list_all_iff)
  have len: "length c = h" and rows: "\<forall>r\<in>set c. length r = w"
    using assms by (simp_all add: is_image_def list_all_iff)
  show ?thesis
    unfolding is_image_def pad_axis0_def list_all_iff
    using len rows hl by (simp add: ball_Un)
qed

lemma pad_axis0_nth:
  assumes "length c = h" "i < h"
  shows "pad_axis0 b c ! (b + i) = c ! i"
  using assms unfolding pad_axis0_def by (simp add: nth_append)

lemma pad_axis1_shape:
  assumes "is_image h w c"
  shows "is_image h (b + w + b) (pad_axis1 b c)"
proof -
  have len: "length c = h" and rows: "\<And>r. r \<in> set c \<Longrightarrow> length r = w"
    using assms by (simp_all add: is_image_def list_all_iff)
  show ?thesis
    unfolding is_image_def pad_axis1_def ramp_before_def ramp_after_def
    by (simp add: len rows list_all_iff)
qed

lemma pad_axis1_nth:
  assumes "is_image h w c" "i < h" "j < w"
  shows "pad_axis1 b c ! i ! (b + j) = c ! i ! j"
proof -
  have l: "length (c ! i) = w" using assms by (intro is_image_rows [of h]) auto
  have len: "length c = h" using assms by (simp add: is_image_def)
  have "pad_axis1 b c ! i = ramp_before b (hd (c ! i)) @ c ! i @ ramp_after b (last (c ! i))"
    unfolding pad_axis1_def using len assms(2) by simp
  moreover have "length (ramp_before b (hd (c ! i))) = b" by (simp add: ramp_before_def)
  ultimately show ?thesis using l assms(3) by (simp add: nth_append)
qed

lemma pad_linear_ramp_shape:
  assumes "is_image h w c" "0 < h"
  shows "is_image (b + h + b) (b + w + b) (pad_linear_ramp b c)"
  using assms pad_axis1_shape [OF pad_axis0_shape [OF assms, of b], of b]
  by (simp add: pad_linear_ramp_def)

lemma pad_linear_ramp_nth:
  assumes c: "is_image h w c" and i: "i < h" and j: "j < w"
  shows "pad_linear_ramp b c ! (b + i) ! (b + j) = c ! i ! j"
proof (cases "b = 0")
  case True
  then show ?thesis by (simp add: pad_linear_ramp_def)
next
  case False
  have h: "0 < h" using i by simp
  have len: "length c = h" using c by (simp add: is_image_def)
  have "pad_axis1 b (pad_axis0 b c) ! (b + i) ! (b + j) = pad_axis0 b c ! (b + i) ! j"
    using pad_axis0_shape [OF c h, of b] i j by (intro pad_axis1_nth [of "b + h + b" w]) auto
  also have "\<dots> = c ! i ! j" using pad_axis0_nth [OF len i] by simp
  finally show ?thesis using False by (simp add: pad_linear_ramp_def)
qed

lemma edge_ramp_image_shape:
  assumes im: "is_image h w im" and b: "0 \<le> buff" "2 * buff < int h" "2 * buff < int w"
  shows "\<exists>r. edge_ramp_image im buff = Inr r \<and> is_image h w r
       \<and> (\<forall>i j. nat buff \<le> i \<and> i < h - nat buff \<and> nat buff \<le> j \<and> j < w - nat buff
            \<longrightarrow> r ! i ! j = im ! i ! j)"
proof -
  define k where "k = nat buff"
  have k: "2 * k < h" "2 * k < w" "buff = int k" using b by (auto simp: k_def)
  have sh: "img_shape im = (h, w)" using im k by (intro is_image_shape) auto
  let ?c = "centre_crop im (h - 2 * k, w - 2 * k)"
  have c: "is_image (h - 2 * k) (w - 2 * k) ?c" using centre_crop_margin(1) [OF im k(1,2)] .
  have eq: "edge_ramp_image im buff = Inr (pad_linear_ramp k ?c)"
    using k by (simp add: edge_ramp_image_def sh Let_def)
  have shape: "is_image h w (pad_linear_ramp k ?c)"
    using pad_linear_ramp_shape [OF c, of k] k by (simp add: add.commute mult_2)
  have inner: "pad_linear_ramp k ?c ! i ! j = im ! i ! j"
    if "k \<le> i" "i < h - k" "k \<le> j" "j < w - k" for i j
  proof -
    have "pad_linear_ramp k ?c ! (k + (i - k)) ! (k + (j - k)) = ?c ! (i - k) ! (j - k)"
      using that by (intro pad_linear_ramp_nth [OF c]) auto
    also have "\<dots> = im ! (k + (i - k)) ! (k + (j - k))"
      using that by (intro centre_crop_margin(2) [OF im k(1,2)]) auto
    finally show ?thesis using that by simp
  qed
  show ?thesis using eq shape inner by (auto simp: k_def)
qed

lemma mapE_all:
  assumes "\<And>x. x \<in> set xs \<Longrightarrow> \<exists>y. f x = Inr y \<and> P x y"
  shows "\<exists>ys. mapE f xs = Inr ys \<and> length ys = length xs \<and> (\<forall>k < length xs. P (xs ! k) (ys ! k))"
  using assms
proof (induction xs)
  case Nil
  then show ?case by simp
next
  case (Cons x xs)
  from Cons.prems obtain y where y: "f x = Inr y" "P x y" by auto
  from Cons obtain ys where ys: "mapE f xs = Inr ys" "length ys = length xs"
    "\<forall>k < length xs. P (xs ! k) (ys ! k)" by auto
  have "\<forall>k < length (x # xs). P ((x # xs) ! k) ((y # ys) ! k)"
    using y ys by (auto simp: nth_Cons split: nat.splits)
  with y ys show ?case by auto
qed

text \<open>
  C10. For every 2D image of h rows and w columns, and every 3D stack of such images,
  and every integer buffer \<open>buff\<close> with \<open>0 \<le> buff\<close>, \<open>2 * buff < h\<close> and
  \<open>2 * buff < w\<close>, \<open>edge_ramp\<close> returns an array of the same shape: the crop leaves
  out \<open>buff\<close> pixels on every side and the ramp puts \<open>buff\<close> pixels back on every
  side. The pixels further than \<open>buff\<close> from every side are those of the input.
\<close>

theorem edge_ramp_keeps_shape:
  assumes b: "0 \<le> buff" "2 * buff < int h" "2 * buff < int w"
  shows "(is_image h w im \<longrightarrow>
           (\<exists>r. edge_ramp (Arr2 im) buff = Inr (Arr2 r) \<and> is_image h w r
              \<and> (\<forall>i j. nat buff \<le> i \<and> i < h - nat buff \<and> nat buff \<le> j \<and> j < w - nat buff
                   \<longrightarrow> r ! i ! j = im ! i ! j)))
       \<and> (list_all (is_image h w) st \<longrightarrow>
           (\<exists>rs. edge_ramp (Arr3 st) buff = Inr (Arr3 rs) \<and> length rs = length st
              \<and> list_all (is_image h w) rs
              \<and> (\<forall>f i j. f < length st \<and> nat buff \<le> i \<and> i < h - nat buff \<and> nat buff \<le> j
                     \<and> j < w - nat buff \<longrightarrow> rs ! f ! i ! j = st ! f ! i ! j)))"
proof (intro conjI impI)
  assume "is_image h w im"
  from edge_ramp_image_shape [OF this b]
  show "\<exists>r. edge_ramp (Arr2 im) buff = Inr (Arr2 r) \<and> is_image h w r
      \<and> (\<forall>i j. nat buff \<le> i \<and> i < h - nat buff \<and> nat buff \<le> j \<and> j < w - nat buff
           \<longrightarrow> r ! i ! j = im ! i ! j)"
    by (auto simp: edge_ramp_def)
next
  assume st: "list_all (is_image h w) st"
  let ?P = "\<lambda>a r. is_image h w r
       \<and> (\<forall>i j. nat buff \<le> i \<and> i < h - nat buff \<and> nat buff \<le> j \<and> j < w - nat buff
            \<longrightarrow> r ! i ! j = a ! i ! j)"
  have "\<exists>r. edge_ramp_image a buff = Inr r \<and> ?P a r" if "a \<in> set st" for a
    using edge_ramp_image_shape [OF _ b, of a] that st by (simp add: list_all_iff)
  from mapE_all [of st "\<lambda>a. edge_ramp_image a buff" ?P, OF this]
  obtain rs where rs: "mapE (\<lambda>a. edge_ramp_image a buff) st = Inr rs" "length rs = length st"
    "\<forall>k < length st. ?P (st ! k) (rs ! k)" by blast
  have "list_all (is_image h w) rs" using rs by (simp add: list_all_length)
  with rs show "\<exists>rs. edge_ramp (Arr3 st) buff = Inr (Arr3 rs) \<and> length rs = length st
      \<and> list_all (is_image h w) rs
      \<and> (\<forall>f i j. f < length st \<and> nat buff \<le> i \<and> i < h - nat buff \<and> nat buff \<le> j
             \<and> j < w - nat buff \<longrightarrow> rs ! f ! i ! j = st ! f ! i ! j)"
    by (auto simp: edge_ramp_def)
qed


theorem edge_ramp_keeps_shape_witness:
  "(0::int) \<le> 1 \<and> 2 * 1 < int 4
   \<and> is_image 4 4 [[1, 2, 3, 4], [5, 6, 7, 8], [9, 10, 11, 12], [1, 1, 1, 1::real]]
   \<and> (\<exists>r. edge_ramp (Arr2 [[1, 2, 3, 4], [5, 6, 7, 8], [9, 10, 11, 12], [1, 1, 1, 1]]) 1 = Inr (Arr2 r)
          \<and> is_image 4 4 r)
   \<and> edge_ramp (Arr2 [[1, 2, 3, 4], [5, 6, 7, 8], [9, 10, 11, 12], [1, 1, 1, 1]]) 1
       = Inr (Arr2 [[0, 0, 0, 0], [0, 6, 7, 0], [0, 10, 11, 0], [0, 0, 0, 0]])"
proof -
  have im: "is_image 4 4 [[1, 2, 3, 4], [5, 6, 7, 8], [9, 10, 11, 12], [1, 1, 1, 1::real]]"
    by (simp add: is_image_def)
  have ev: "edge_ramp (Arr2 [[1, 2, 3, 4], [5, 6, 7, 8], [9, 10, 11, 12], [1, 1, 1, 1]]) 1
       = Inr (Arr2 [[0, 0, 0, 0], [0, 6, 7, 0], [0, 10, 11, 0], [0, 0, 0, 0]])"
    by (simp add: edge_ramp_def edge_ramp_image_def img_shape_def centre_crop_def
        pad_linear_ramp_def pad_axis0_def pad_axis1_def ramp_before_def ramp_after_def Let_def
        bindE_def)
  show ?thesis
    using edge_ramp_keeps_shape [of 1 4 4 "[[1, 2, 3, 4], [5, 6, 7, 8], [9, 10, 11, 12], [1, 1, 1, 1]]" "[]"]
      im ev
    by simp
qed

section \<open>Ranking by value\<close>

lemma argsort_length [simp]: "length (argsort xs) = length xs"
  by (simp add: argsort_def)

lemma argsort_set [simp]: "set (argsort xs) = {0..<length xs}"
  by (simp add: argsort_def)

lemma argsort_distinct [simp]: "distinct (argsort xs)"
  by (simp add: argsort_def)

lemma argsort_sorted: "sorted (map (\<lambda>i. xs ! i) (argsort xs))"
  by (simp add: argsort_def sorted_sort_key)

text \<open>The last \<open>k\<close> indices of an ascending order hold the \<open>k\<close> largest values.\<close>

lemma slice_last_largest:
  fixes vals :: "real list"
  assumes k: "k \<le> length vals"
  defines "sel \<equiv> slice_last k (argsort vals)"
  shows "length sel = k" "distinct sel" "set sel \<subseteq> {0..<length vals}"
    "\<forall>a \<in> set sel. \<forall>b < length vals. b \<notin> set sel \<longrightarrow> vals ! b \<le> vals ! a"
proof -
  let ?os = "argsort vals"
  let ?n = "length vals"
  have split: "?os = take (?n - k) ?os @ sel" by (simp add: sel_def slice_last_def)
  show "length sel = k" using k by (simp add: sel_def slice_last_def)
  show "distinct sel" by (simp add: sel_def slice_last_def)
  show "set sel \<subseteq> {0..<length vals}"
    using set_drop_subset [of "?n - k" ?os] by (simp add: sel_def slice_last_def)
  have "sorted (map (\<lambda>i. vals ! i) (take (?n - k) ?os) @ map (\<lambda>i. vals ! i) sel)"
    using argsort_sorted [of vals] split by (metis map_append)
  then have dom: "\<forall>b \<in> set (take (?n - k) ?os). \<forall>a \<in> set sel. vals ! b \<le> vals ! a"
    by (auto simp: sorted_append)
  show "\<forall>a \<in> set sel. \<forall>b < length vals. b \<notin> set sel \<longrightarrow> vals ! b \<le> vals ! a"
  proof (intro ballI allI impI)
    fix a b assume a: "a \<in> set sel" and b: "b < length vals" "b \<notin> set sel"
    from b(1) have "b \<in> set ?os" by simp
    then have "b \<in> set (take (?n - k) ?os) \<union> set sel" by (metis split set_append)
    with b(2) have "b \<in> set (take (?n - k) ?os)" by simp
    with dom a show "vals ! b \<le> vals ! a" by blast
  qed
qed

text \<open>The first \<open>k\<close> indices of the reversed order hold the \<open>k\<close> largest values.\<close>

lemma take_rev_largest:
  fixes vals :: "real list"
  assumes k: "k \<le> length vals"
  defines "sel \<equiv> take k (rev (argsort vals))"
  shows "length sel = k" "distinct sel" "set sel \<subseteq> {0..<length vals}"
    "\<forall>a \<in> set sel. \<forall>b < length vals. b \<notin> set sel \<longrightarrow> vals ! b \<le> vals ! a"
proof -
  let ?os = "argsort vals"
  let ?n = "length vals"
  have sel: "sel = rev (slice_last k ?os)"
    using k by (simp add: sel_def slice_last_def take_rev)
  have s: "set sel = set (slice_last k ?os)" by (simp add: sel)
  show "length sel = k" using slice_last_largest(1) [OF k] by (simp add: sel)
  show "distinct sel" using slice_last_largest(2) [OF k] by (simp add: sel)
  show "set sel \<subseteq> {0..<length vals}" using slice_last_largest(3) [OF k] by (simp add: sel)
  show "\<forall>a \<in> set sel. \<forall>b < length vals. b \<notin> set sel \<longrightarrow> vals ! b \<le> vals ! a"
    using slice_last_largest(4) [OF k] unfolding s .
qed

section \<open>Serial and parallel mode\<close>

lemma mapE_cong: "(\<And>x. x \<in> set xs \<Longrightarrow> f x = g x) \<Longrightarrow> mapE f xs = mapE g xs"
  by (induction xs) (auto split: sum.splits)

lemma mapE_map: "mapE f (map h xs) = mapE (\<lambda>x. f (h x)) xs"
  by (induction xs) (auto split: sum.splits)

lemma mapE_index:
  "mapE (\<lambda>k. if k < length xs then f (xs ! k) else Inl e) [0..<length xs] = mapE f xs"
proof -
  have "mapE f xs = mapE f (map ((!) xs) [0..<length xs])" by (simp add: map_nth)
  also have "\<dots> = mapE (\<lambda>k. f (xs ! k)) [0..<length xs]" by (simp add: mapE_map)
  also have "\<dots> = mapE (\<lambda>k. if k < length xs then f (xs ! k) else Inl e) [0..<length xs]"
    by (rule mapE_cong) simp
  finally show ?thesis by simp
qed

lemma li_stack_ignores_peaks:
  assumes "\<not> (m = ''peak pixel'' \<and> fsr opts < 1)"
  shows "li_stack E m shifted shifts p ref n opts = li_stack E m shifted shifts q ref n opts"
  using assms by (auto simp: li_stack_def)

lemma li_run_serial:
  assumes "mode opts = ''serial''" "n = int (length imgs)"
  shows "li_run sf m imgs n opts =
     bindE (mapE sf imgs) (\<lambda>results.
       Inr (map fst results, map (\<lambda>r. fst (snd r)) results,
            if m = ''peak pixel'' \<and> 0 < n
            then Some (map (\<lambda>r. the (snd (snd r))) results) else None))"
  using assms by (simp add: li_run_def mapE_index)

lemma li_run_parallel:
  assumes "mode opts = ''parallel''"
  shows "li_run sf m imgs n opts =
     bindE (mapE sf imgs) (\<lambda>results.
       if results = [] then Inl IndexError
       else Inr (map fst results, map (\<lambda>r. fst (snd r)) results,
            if m = ''peak pixel'' \<and> fsr opts < 1
            then Some (map (\<lambda>r. the (snd (snd r))) results) else None))"
  using assms by (simp add: li_run_def)

text \<open>
  Where \<open>N\<close> is the number of frames and there is at least one frame, the serial loop
  and the pool give the same frames, the same shift vectors and the same stack.
\<close>

lemma serial_parallel_agree:
  assumes ms: "mode os = ''serial''" and mp: "mode op = ''parallel''"
    and same: "op = os\<lparr>mode := ''parallel''\<rparr>"
    and chk: "li_error_check images (image_ref os) (N os) = Inr (imgs, ref, n)"
    and n: "n = int (length imgs)" and ne: "imgs \<noteq> []"
  shows "lucky_imaging E images meth os = lucky_imaging E images meth op"
proof -
  let ?m = "lower meth"
  have f: "image_ref op = image_ref os" "N op = N os" "fsr op = fsr os"
    "stacking_method op = stacking_method os" "timeit op = timeit os"
    "bid_area op = bid_area os" "centroid_threshold op = centroid_threshold os"
    "buff_xcorr op = buff_xcorr os" "sub_pixel_shift op = sub_pixel_shift os"
    "buff_fas op = buff_fas os" "cutoff_freq_frac op = cutoff_freq_frac os"
    "sigma_kernel op = sigma_kernel os"
    "use_vals_outside_cutoff_freq op = use_vals_outside_cutoff_freq os"
    by (simp_all add: same)
  have xf: "xcorr_fun E ref op = xcorr_fun E ref os"
    by (rule ext) (simp add: xcorr_fun_def f)
  have pf: "pp_fun E i op = pp_fun E i os" for i
    by (rule ext) (simp add: pp_fun_def f)
  have su: "li_method_setup E ?m imgs ref n op = li_method_setup E ?m imgs ref n os"
    unfolding li_method_setup_def f xf pf ..
  have fsum: "fas_sum E a ref n op = fas_sum E a ref n os" for a
    unfolding fas_sum_def f ..
  have fas: "fas_stack E a ref n op = fas_stack E a ref n os" for a
    unfolding fas_stack_def f fsum ..
  have st: "li_stack E m a b c ref n op = li_stack E m a b c ref n os" for m a b c
    unfolding li_stack_def f fas ..
  have pos: "0 < n" using n ne by simp
  have run: "bindE (li_run sf ?m imgs n os) (\<lambda>run.
           li_stack E ?m (fst run) (fst (snd run)) (snd (snd run)) ref n os)
      = bindE (li_run sf ?m imgs n op) (\<lambda>run.
           li_stack E ?m (fst run) (fst (snd run)) (snd (snd run)) ref n op)" for sf
  proof (cases "mapE sf imgs")
    case (Inl e)
    then show ?thesis by (simp add: li_run_serial [OF ms n] li_run_parallel [OF mp])
  next
    case (Inr rs)
    then have "length rs = length imgs" by (rule mapE_length)
    with ne have rs: "rs \<noteq> []" by auto
    show ?thesis
    proof (cases "?m = ''peak pixel'' \<and> fsr os < 1")
      case True
      then show ?thesis
        using Inr rs pos by (simp add: li_run_serial [OF ms n] li_run_parallel [OF mp] f st)
    next
      case False
      then show ?thesis
        using Inr rs pos
        by (auto simp: li_run_serial [OF ms n] li_run_parallel [OF mp] f st
            intro: li_stack_ignores_peaks)
    qed
  qed
  show ?thesis
    unfolding lucky_imaging_def
    by (simp add: f chk su run Let_def cong: li_setup.case_cong)
qed

text \<open>Unfolding a run of \<open>lucky_imaging\<close> on concrete frames.\<close>

lemmas li_eval = lucky_imaging_def li_error_check_def flatten3_def truthy_def default_options_def
  lower_names li_method_setup_def li_run_def li_stack_def pp_fun_def shift_pp_def argmax_def
  unravel_index_def img_shape_def list_max_def ext_plain_def stack_frames_def stack_average_def
  img_add_def img_sum_def deliver_def argsort_def slice_to_def Let_def

text \<open>
  C2, at a stack of two frames with a reference and \<open>N = 1\<close>, method 'peak pixel': the
  serial loop shifts the first frame only and returns one shift vector and
  \<open>(reference + frame 0) / 2\<close>; the pool shifts both frames and returns two shift
  vectors and \<open>(reference + frame 0 + frame 1) / 2\<close>.
\<close>

theorem serial_parallel_differ:
  "lucky_imaging ext_plain (Arr3 [[[1]], [[5]]]) ''peak pixel''
      (default_options\<lparr>image_ref := Some [[3]], N := Some 1\<rparr>)
     = Inr ([[2]], [(Fin 0, Fin 0)])
   \<and> lucky_imaging ext_plain (Arr3 [[[1]], [[5]]]) ''peak pixel''
      (default_options\<lparr>image_ref := Some [[3]], N := Some 1, mode := ''parallel''\<rparr>)
     = Inr ([[9 / 2]], [(Fin 0, Fin 0), (Fin 0, Fin 0)])"
  by (simp add: li_eval)

section \<open>Peak pixel with a selection fraction\<close>

text \<open>
  With \<open>timeit\<close> set, as it is by default, 'peak pixel' with \<open>fsr < 1\<close> never returns:
  after the stack is made the closing message raises.
\<close>

lemma peak_pixel_timeit_never_returns:
  assumes "lower meth = ''peak pixel''" "fsr opts < 1" "timeit opts"
  shows "\<exists>e. lucky_imaging E images meth opts = Inl e"
proof -
  have st: "\<exists>e. li_stack E ''peak pixel'' a b c ref n opts = Inl e" for a b c ref n
    using assms by (cases c) (simp_all add: li_stack_def Let_def)
  have su: "li_method_setup E ''peak pixel'' imgs ref n opts = Inr p \<Longrightarrow> \<exists>sf. p = ShiftFun sf"
    for imgs ref n p
    by (auto simp: li_method_setup_def bindE_eq_Inr Let_def)
  show ?thesis
  proof (cases "lucky_imaging E images meth opts")
    case (Inl e)
    then show ?thesis by blast
  next
    case (Inr r)
    then obtain chk p where
      p: "li_method_setup E ''peak pixel'' (fst chk) (fst (snd chk)) (snd (snd chk)) opts = Inr p"
      and rest: "(case p of Early r \<Rightarrow> Inr r
          | ShiftFun shift_fun \<Rightarrow>
              bindE (li_run shift_fun ''peak pixel'' (fst chk) (snd (snd chk)) opts) (\<lambda>run.
                li_stack E ''peak pixel'' (fst run) (fst (snd run)) (snd (snd run))
                  (fst (snd chk)) (snd (snd chk)) opts)) = Inr r"
      by (auto simp: lucky_imaging_def bindE_eq_Inr Let_def assms(1))
    from su [OF p] obtain sf where "p = ShiftFun sf" by blast
    with rest obtain run where
      "li_stack E ''peak pixel'' (fst run) (fst (snd run)) (snd (snd run))
                  (fst (snd chk)) (snd (snd chk)) opts = Inr r"
      by (auto simp: bindE_eq_Inr)
    with st show ?thesis by (metis sum.distinct(1))
  qed
qed

text \<open>
  Without the closing message, the stacking for 'peak pixel' with \<open>fsr < 1\<close> ranks the
  \<open>n\<close> frames by peak pixel value, keeps the \<open>k = ceil(fsr * n)\<close> frames of largest
  value (when \<open>1 \<le> k \<le> n\<close>, as float64 gives for \<open>0 < fsr\<close>), combines them with the
  reference, and returns every shift vector.
\<close>

lemma li_stack_peak_pixel_selection:
  fixes vals :: "real list" and images_shifted :: "image list"
  assumes f: "fsr opts < 1" and quiet: "\<not> timeit opts"
    and c1: "1 \<le> \<lceil>fl E (fsr opts * of_int n)\<rceil>" and c2: "\<lceil>fl E (fsr opts * of_int n)\<rceil> \<le> n"
    and n: "length vals = nat n"
    and sm: "stacking_method opts = ''average'' \<or> stacking_method opts = ''median combine''"
  defines "k \<equiv> nat \<lceil>fl E (fsr opts * of_int n)\<rceil>"
  defines "keep \<equiv> take k (rev (argsort vals))"
  defines "kept \<equiv> map (\<lambda>i. images_shifted ! i) keep"
  shows "1 \<le> k \<and> k \<le> nat n"
    and "length keep = k \<and> distinct keep \<and> set keep \<subseteq> {0..<nat n}"
    and "\<forall>a \<in> set keep. \<forall>b < nat n. b \<notin> set keep \<longrightarrow> vals ! b \<le> vals ! a"
    and "li_stack E ''peak pixel'' images_shifted shifts (Some vals) ref n opts
         = Inr (if stacking_method opts = ''median combine'' then median_combine (ref # kept)
                else map (map (\<lambda>x. fl E (x / (real k + 1))))
                       (img_add (fl E) ref (img_sum (fl E) (img_shape ref) kept)),
                shifts)"
proof -
  have "1 \<le> k" unfolding k_def using c1 by linarith
  moreover have "k \<le> nat n" unfolding k_def using c2 by linarith
  ultimately show k: "1 \<le> k \<and> k \<le> nat n" by simp
  then have kl: "k \<le> length vals" using n by simp
  show "length keep = k \<and> distinct keep \<and> set keep \<subseteq> {0..<nat n}"
    using take_rev_largest(1-3) [OF kl] n by (simp add: keep_def)
  show "\<forall>a \<in> set keep. \<forall>b < nat n. b \<notin> set keep \<longrightarrow> vals ! b \<le> vals ! a"
    using take_rev_largest(4) [OF kl] n by (simp add: keep_def)
  have sl: "slice_to \<lceil>fl E (fsr opts * of_int n)\<rceil> (rev (argsort vals)) = keep"
    using c1 by (simp add: slice_to_def keep_def k_def)
  have d: "real_of_int \<lceil>fl E (fsr opts * of_int n)\<rceil> = real k"
    using c1 by (simp add: k_def)
  have d0: "real k + 1 \<noteq> 0" by (simp add: add_nonneg_eq_0_iff)
  show "li_stack E ''peak pixel'' images_shifted shifts (Some vals) ref n opts
         = Inr (if stacking_method opts = ''median combine'' then median_combine (ref # kept)
                else map (map (\<lambda>x. fl E (x / (real k + 1))))
                       (img_add (fl E) ref (img_sum (fl E) (img_shape ref) kept)),
                shifts)"
    using sm f quiet d0
    by (auto simp: li_stack_def Let_def sl d kept_def stack_frames_def stack_average_def deliver_def)
qed

text \<open>
  C4, at three frames with a reference, method 'peak pixel', \<open>fsr = 1/2\<close> and the
  other arguments at their defaults: the frames are shifted and the stack is made,
  then the closing message raises ValueError, so neither the stacked image nor the
  shift array is returned.
\<close>

theorem peak_pixel_fsr_ValueError:
  "lucky_imaging ext_plain (Arr3 [[[1]], [[5]], [[2]]]) ''peak pixel''
      (default_options\<lparr>image_ref := Some [[3]], fsr := 1 / 2\<rparr>) = Inl ValueError"
  by (simp add: li_eval upt_conv_Cons)

text \<open>The same call with \<open>timeit = False\<close> returns the stack of the two frames of largest peak.\<close>

lemma peak_pixel_fsr_quiet_run:
  "lucky_imaging ext_plain (Arr3 [[[1]], [[5]], [[2]]]) ''peak pixel''
      (default_options\<lparr>image_ref := Some [[3]], fsr := 1 / 2, timeit := False\<rparr>)
     = Inr ([[10 / 3]], [(Fin 0, Fin 0), (Fin 0, Fin 0), (Fin 0, Fin 0)])"
  by (simp add: li_eval upt_conv_Cons)

section \<open>Blind stack\<close>

subsection \<open>Rounding of float64 at some values\<close>

lemma two_powr_nat: "(2::real) powr real_of_int (int n) = 2 ^ n"
  by (simp only: of_int_of_nat_eq) (rule powr_realpow, simp)

lemma fl64_eval:
  assumes lo: "2 ^ (52 + d) \<le> \<bar>x\<bar>" and hi: "\<bar>x\<bar> < 2 ^ (53 + d)"
  shows "fl64 x = of_int (np_round (x / 2 ^ d)) * 2 ^ d"
proof -
  have "(0::real) < 2 ^ (52 + d)" by simp
  with lo have pos: "0 < \<bar>x\<bar>" by linarith
  then have nz: "x \<noteq> 0" by simp
  have l: "2 powr real_of_int (int (52 + d)) \<le> \<bar>x\<bar>"
    using lo by (simp only: two_powr_nat)
  have "int (52 + d) + 1 = int (53 + d)" by simp
  then have h: "\<bar>x\<bar> < 2 powr real_of_int (int (52 + d) + 1)"
    using hi by (simp only: two_powr_nat)
  have "\<lfloor>log 2 \<bar>x\<bar>\<rfloor> = int (52 + d)"
    using floor_log_eq_powr_iff [of "\<bar>x\<bar>" 2 "int (52 + d)"] pos l h by simp
  then have e: "\<lfloor>log 2 \<bar>x\<bar>\<rfloor> - 52 = int d" by simp
  show ?thesis
    unfolding fl64_def Let_def e two_powr_nat using nz by simp
qed

lemma fl64_double: "fl64 (6755399441055746 + 6755399441055746) = 13510798882111492"
  using fl64_eval [of 1 "6755399441055746 + 6755399441055746"]
  by (simp add: np_round_def Let_def)

lemma fl64_triple: "fl64 (6755399441055746 + 13510798882111492) = 20266198323167240"
  using fl64_eval [of 2 "6755399441055746 + 13510798882111492"]
  by (simp add: np_round_def Let_def)

lemma fl64_third: "fl64 (20266198323167240 / 3) = 6755399441055747"
  using fl64_eval [of 0 "20266198323167240 / 3"]
  by (simp add: np_round_def Let_def)

lemma fl64_steps:
  "fl64 13510798882111492 = 13510798882111492"
  "fl64 20266198323167238 = 20266198323167240"
  "fl64 (20266198323167240 / 3) = 6755399441055747"
  using fl64_double fl64_triple fl64_third by simp_all

lemma fl64_eval_small:
  assumes lo: "2 ^ 52 \<le> \<bar>x\<bar> * 2 ^ d" and hi: "\<bar>x\<bar> * 2 ^ d < 2 ^ 53"
  shows "fl64 x = of_int (np_round (x * 2 ^ d)) / 2 ^ d"
proof -
  have p: "(2::real) powr real_of_int (- int d) = 1 / 2 ^ d"
    using two_powr_nat [of d] by (simp add: powr_minus divide_simps)
  have q: "(2::real) powr real_of_int (52 - int d) = 2 ^ 52 / 2 ^ d"
    using two_powr_nat [of d] two_powr_nat [of 52] by (simp add: powr_diff)
  have q1: "(2::real) powr real_of_int (52 - int d + 1) = 2 ^ 53 / 2 ^ d"
    using two_powr_nat [of d] two_powr_nat [of 53] by (simp add: powr_diff algebra_simps)
  have "(0::real) < 2 ^ 52" by simp
  with lo have "0 < \<bar>x\<bar> * 2 ^ d" by linarith
  then have pos: "0 < \<bar>x\<bar>" by (simp add: zero_less_mult_iff)
  then have nz: "x \<noteq> 0" by simp
  have l: "2 powr real_of_int (52 - int d) \<le> \<bar>x\<bar>"
    unfolding q using lo by (simp add: divide_simps)
  have h: "\<bar>x\<bar> < 2 powr real_of_int (52 - int d + 1)"
    unfolding q1 using hi by (simp add: divide_simps)
  have "\<lfloor>log 2 \<bar>x\<bar>\<rfloor> = 52 - int d"
    using floor_log_eq_powr_iff [of "\<bar>x\<bar>" 2 "52 - int d"] pos l h by simp
  then have e: "\<lfloor>log 2 \<bar>x\<bar>\<rfloor> - 52 = - int d" by simp
  show ?thesis
    unfolding fl64_def Let_def e p using nz by simp
qed

lemma fl64_small_values: "fl64 3 = 3" "fl64 6 = 6" "fl64 9 = 9"
  using fl64_eval_small [of 3 51] fl64_eval_small [of 6 50] fl64_eval_small [of 9 49]
  by (simp_all add: np_round_def Let_def)

subsection \<open>Identical copies\<close>

lemma median_replicate: "0 < n \<Longrightarrow> median (replicate n x) = x"
proof -
  assume n: "0 < n"
  have s: "sort (replicate n x) = replicate n x" by (simp add: sorted_sort_id sorted_replicate)
  have a: "n div 2 < n" using n by simp
  have b: "n div 2 - 1 < n" using n by simp
  show ?thesis using a b by (simp add: median_def s Let_def)
qed

lemma median_combine_copies: "median_combine (ref # replicate k ref) = ref"
proof -
  have m: "median (x # replicate k x) = x" for x
    using median_replicate [of "Suc k" x] by simp
  have "median_combine (ref # replicate k ref)
      = map (\<lambda>i. map (\<lambda>j. ref ! i ! j) [0..<length (ref ! i)]) [0..<length ref]"
    by (simp add: median_combine_def m)
  also have "\<dots> = map (\<lambda>i. ref ! i) [0..<length ref]" by (simp add: map_nth)
  also have "\<dots> = ref" by (simp add: map_nth)
  finally show ?thesis .
qed

lemma map2_same: "map2 h (map f xs) (map g xs) = map (\<lambda>x. h (f x) (g x)) xs"
  by (induction xs) simp_all

lemma pixels_cong:
  assumes "\<forall>x \<in> set (concat ref). f x = g x"
  shows "map (map f) ref = map (map g) ref"
  using assms by (induction ref) auto

lemma img_add_maps:
  "img_add rnd (map (map f) ref) (map (map g) ref) = map (map (\<lambda>x. rnd (f x + g x))) ref"
proof -
  have "img_add rnd (map (map f) ref) (map (map g) ref)
      = map (\<lambda>r. map2 (\<lambda>x y. rnd (x + y)) (map f r) (map g r)) ref"
    unfolding img_add_def by (rule map2_same)
  also have "\<dots> = map (map (\<lambda>x. rnd (f x + g x))) ref"
    by (simp add: map2_same)
  finally show ?thesis .
qed

lemma img_add_copy:
  assumes "\<forall>x \<in> set (concat ref). rnd (real a * x + x) = real a * x + x"
  shows "img_add rnd (map (map (\<lambda>x. real a * x)) ref) ref = map (map (\<lambda>x. real (Suc a) * x)) ref"
proof -
  have "img_add rnd (map (map (\<lambda>x. real a * x)) ref) (map (map (\<lambda>x. x)) ref)
      = map (map (\<lambda>x. rnd (real a * x + x))) ref"
    by (rule img_add_maps)
  also have "\<dots> = map (map (\<lambda>x. real (Suc a) * x)) ref"
    by (rule pixels_cong) (use assms in \<open>simp add: algebra_simps\<close>)
  finally show ?thesis by simp
qed

text \<open>
  The frames are added one by one: with \<open>a\<close> copies in the sum, adding a copy computes
  \<open>fl (a * x + x)\<close> at each pixel \<open>x\<close>.
\<close>

lemma foldl_add_copies:
  assumes "\<forall>x \<in> set (concat ref). \<forall>i. a \<le> i \<and> i < a + j \<longrightarrow> rnd (real i * x + x) = real i * x + x"
  shows "foldl (img_add rnd) (map (map (\<lambda>x. real a * x)) ref) (replicate j ref)
     = map (map (\<lambda>x. real (a + j) * x)) ref"
  using assms
proof (induction j arbitrary: a)
  case 0
  then show ?case by simp
next
  case (Suc j)
  have "\<forall>x \<in> set (concat ref). rnd (real a * x + x) = real a * x + x"
    using Suc.prems by auto
  then have step: "img_add rnd (map (map (\<lambda>x. real a * x)) ref) ref
      = map (map (\<lambda>x. real (Suc a) * x)) ref"
    by (rule img_add_copy)
  have "foldl (img_add rnd) (map (map (\<lambda>x. real (Suc a) * x)) ref) (replicate j ref)
      = map (map (\<lambda>x. real (Suc a + j) * x)) ref"
    by (rule Suc.IH) (use Suc.prems in auto)
  then show ?case by (simp add: step)
qed

lemma average_copies:
  assumes k: "0 < k"
    and px: "\<forall>x \<in> set (concat ref). rnd x = x
               \<and> (\<forall>j. 1 \<le> j \<and> j \<le> k \<longrightarrow> rnd (real j * x + x) = real j * x + x)"
  shows "stack_average rnd ref (replicate k ref) (real k + 1) = Inr ref"
proof -
  obtain j where j: "k = Suc j" using k by (cases k) auto
  have one: "map (map (\<lambda>x. real 1 * x)) ref = ref" by (simp add: map_idI)
  have "foldl (img_add rnd) (map (map (\<lambda>x. real 1 * x)) ref) (replicate j ref)
      = map (map (\<lambda>x. real (1 + j) * x)) ref"
    by (rule foldl_add_copies) (use px j in auto)
  then have s: "img_sum rnd (img_shape ref) (replicate k ref) = map (map (\<lambda>x. real k * x)) ref"
    by (simp add: img_sum_def j one)
  have "img_add rnd (map (map (\<lambda>x. x)) ref) (map (map (\<lambda>x. real k * x)) ref)
      = map (map (\<lambda>x. rnd (x + real k * x))) ref"
    by (rule img_add_maps)
  also have "\<dots> = map (map (\<lambda>x. (real k + 1) * x)) ref"
  proof (rule pixels_cong, intro ballI)
    fix x assume "x \<in> set (concat ref)"
    with px k have "rnd (real k * x + x) = real k * x + x" by auto
    then show "rnd (x + real k * x) = (real k + 1) * x"
      by (simp add: algebra_simps)
  qed
  finally have t: "img_add rnd ref (map (map (\<lambda>x. real k * x)) ref)
      = map (map (\<lambda>x. (real k + 1) * x)) ref" by simp
  have d0: "real k + 1 \<noteq> 0" by (simp add: add_nonneg_eq_0_iff)
  have "map (map (\<lambda>x. rnd (x / (real k + 1)))) (map (map (\<lambda>x. (real k + 1) * x)) ref)
      = map (map (\<lambda>x. x)) ref"
    unfolding map_map o_def
  proof (rule pixels_cong, intro ballI)
    fix x assume "x \<in> set (concat ref)"
    with px have "rnd x = x" by auto
    then show "rnd ((real k + 1) * x / (real k + 1)) = x" using d0 by simp
  qed
  then show ?thesis using d0 by (simp add: stack_average_def s t)
qed

subsection \<open>What blind stack returns\<close>

text \<open>
  C6, as stated, at a reference of one pixel of value 6755399441055746 (a float64) and
  two copies of it, with the rule 'average' and float64 rounding: \<open>x + x\<close> is exact,
  \<open>x + 2x\<close> rounds up by 2, and the quotient by 3 rounds to \<open>x + 1\<close>, so the stacked
  image is not the reference.
\<close>

theorem blind_stack_average_rounding_counterexample:
  "lucky_imaging (ext_plain\<lparr>fl := fl64\<rparr>)
       (Arr3 [[[6755399441055746]], [[6755399441055746]]]) ''blind stack''
       (default_options\<lparr>image_ref := Some [[6755399441055746]]\<rparr>)
     = Inr ([[6755399441055747]], [(Fin 0, Fin 0), (Fin 0, Fin 0)])"
  by (simp add: li_eval fl64_steps numeral_2_eq_2)

text \<open>
  C6, amended. Blind stack aligns nothing. With the rule 'average' and \<open>N \<ge> 0\<close> it
  returns the float quotient by \<open>N + 1\<close> of the float sum of the reference and the
  frames, and \<open>N\<close> zero shift vectors. For a reference combined with \<open>k \<ge> 1\<close> copies
  of itself (\<open>N\<close> not supplied), the result is the reference exactly under the rule
  'median combine', and under the rule 'average' whenever the float additions of the
  run are exact: every pixel \<open>x\<close> is a float (\<open>fl x = x\<close>) and so are the sums
  \<open>j * x + x\<close> for \<open>j = 1, ..., k\<close> (the quotient of \<open>(k + 1) * x\<close> by \<open>k + 1\<close> is then
  \<open>x\<close>). In float64 this covers the pixel 3.0 with two copies and fails for the pixel
  6755399441055746.0.
\<close>

theorem blind_stack_result:
  assumes m: "lower meth = ''blind stack''"
  shows "(li_error_check images (image_ref opts) (N opts) = Inr (imgs, ref, n) \<and> 0 \<le> n
            \<and> stacking_method opts = ''average''
          \<longrightarrow> lucky_imaging E images meth opts
               = Inr (map (map (\<lambda>x. fl E (x / (of_int n + 1))))
                        (img_add (fl E) ref (img_sum (fl E) (img_shape ref) imgs)),
                      replicate (nat n) (Fin 0, Fin 0)))
       \<and> (image_ref opts = Some ref \<and> \<not> truthy (N opts) \<and> 0 < k \<and> concat ref \<noteq> []
            \<and> (stacking_method opts = ''median combine''
                \<or> stacking_method opts = ''average''
                  \<and> (\<forall>x \<in> set (concat ref). fl E x = x
                        \<and> (\<forall>j. 1 \<le> j \<and> j \<le> k \<longrightarrow> fl E (real j * x + x) = real j * x + x)))
          \<longrightarrow> lucky_imaging E (Arr3 (replicate k ref)) meth opts
               = Inr (ref, replicate k (Fin 0, Fin 0)))"
proof (intro conjI impI)
  assume a: "li_error_check images (image_ref opts) (N opts) = Inr (imgs, ref, n) \<and> 0 \<le> n
            \<and> stacking_method opts = ''average''"
  then have d: "real_of_int n + 1 \<noteq> 0" by linarith
  show "lucky_imaging E images meth opts
      = Inr (map (map (\<lambda>x. fl E (x / (of_int n + 1))))
               (img_add (fl E) ref (img_sum (fl E) (img_shape ref) imgs)),
             replicate (nat n) (Fin 0, Fin 0))"
    using a d
    by (simp add: lucky_imaging_def m li_method_setup_def stack_frames_def stack_average_def
        deliver_def Let_def)
next
  assume a: "image_ref opts = Some ref \<and> \<not> truthy (N opts) \<and> 0 < k \<and> concat ref \<noteq> []
            \<and> (stacking_method opts = ''median combine''
                \<or> stacking_method opts = ''average''
                  \<and> (\<forall>x \<in> set (concat ref). fl E x = x
                        \<and> (\<forall>j. 1 \<le> j \<and> j \<le> k \<longrightarrow> fl E (real j * x + x) = real j * x + x)))"
  then obtain j where j: "k = Suc j" by (cases k) auto
  have chk: "li_error_check (Arr3 (replicate k ref)) (image_ref opts) (N opts)
      = Inr (replicate k ref, ref, int k)"
    using a by (simp add: li_error_check_def flatten3_def j)
  have st: "stack_frames (fl E) (stacking_method opts) ref (replicate k ref) (real k + 1) = Inr (Some ref)"
  proof (cases "stacking_method opts = ''median combine''")
    case True
    then show ?thesis by (simp add: stack_frames_def median_combine_copies)
  next
    case False
    with a have av: "stacking_method opts = ''average''"
      and px: "\<forall>x \<in> set (concat ref). fl E x = x
                 \<and> (\<forall>j. 1 \<le> j \<and> j \<le> k \<longrightarrow> fl E (real j * x + x) = real j * x + x)"
      by auto
    from a have "0 < k" by simp
    from average_copies [OF this px] show ?thesis by (simp add: stack_frames_def av)
  qed
  show "lucky_imaging E (Arr3 (replicate k ref)) meth opts = Inr (ref, replicate k (Fin 0, Fin 0))"
    by (simp add: lucky_imaging_def chk m li_method_setup_def st deliver_def Let_def)
qed

theorem blind_stack_result_witness:
  "lucky_imaging (ext_plain\<lparr>fl := fl64\<rparr>) (Arr3 (replicate 2 [[3]])) ''blind stack''
       (default_options\<lparr>image_ref := Some [[3]]\<rparr>)
     = Inr ([[3]], replicate 2 (Fin 0, Fin 0))
   \<and> lucky_imaging (ext_plain\<lparr>fl := fl64\<rparr>) (Arr3 (replicate 2 [[3, 5]])) ''blind stack''
       (default_options\<lparr>image_ref := Some [[3, 5]], stacking_method := ''median combine''\<rparr>)
     = Inr ([[3, 5]], replicate 2 (Fin 0, Fin 0))
   \<and> lucky_imaging ext_plain (Arr3 [[[1, 2]], [[4, 6]]]) ''blind stack''
       (default_options\<lparr>image_ref := Some [[1, 1]]\<rparr>)
     = Inr ([[2, 3]], [(Fin 0, Fin 0), (Fin 0, Fin 0)])"
proof -
  let ?F = "ext_plain\<lparr>fl := fl64\<rparr>"
  have l: "lower ''blind stack'' = ''blind stack''" by (rule lower_names)
  have c: "li_error_check (Arr3 [[[1, 2]], [[4, 6]]])
       (image_ref (default_options\<lparr>image_ref := Some [[1, 1]]\<rparr>))
       (N (default_options\<lparr>image_ref := Some [[1, 1]]\<rparr>))
      = Inr ([[[1, 2]], [[4, 6]]], [[1, 1]], 2)"
    by (simp add: li_error_check_def flatten3_def truthy_def default_options_def img_shape_def)
  have fl3: "\<forall>j. 1 \<le> j \<and> j \<le> (2::nat) \<longrightarrow> fl64 (real j * 3 + 3) = real j * 3 + 3"
  proof (intro allI impI)
    fix j :: nat assume "1 \<le> j \<and> j \<le> 2"
    then consider "j = 1" | "j = 2" by linarith
    then show "fl64 (real j * 3 + 3) = real j * 3 + 3"
      by cases (simp_all add: fl64_small_values)
  qed
  have 1: "lucky_imaging ?F (Arr3 (replicate 2 [[3]])) ''blind stack''
       (default_options\<lparr>image_ref := Some [[3]]\<rparr>)
     = Inr ([[3]], replicate 2 (Fin 0, Fin 0))"
    using blind_stack_result [OF l, where images = "Arr3 []"
        and opts = "default_options\<lparr>image_ref := Some [[3]]\<rparr>"
        and imgs = "[]" and ref = "[[3]]" and n = 0 and E = ?F and k = 2] fl3
    by (simp add: default_options_def ext_plain_def truthy_def fl64_small_values)
  have 2: "lucky_imaging ?F (Arr3 (replicate 2 [[3, 5]])) ''blind stack''
       (default_options\<lparr>image_ref := Some [[3, 5]], stacking_method := ''median combine''\<rparr>)
     = Inr ([[3, 5]], replicate 2 (Fin 0, Fin 0))"
    using blind_stack_result [OF l, where images = "Arr3 []"
        and opts = "default_options\<lparr>image_ref := Some [[3, 5]], stacking_method := ''median combine''\<rparr>"
        and imgs = "[]" and ref = "[[3, 5]]" and n = 0 and E = ?F and k = 2]
    by (simp add: default_options_def ext_plain_def truthy_def)
  have 3: "lucky_imaging ext_plain (Arr3 [[[1, 2]], [[4, 6]]]) ''blind stack''
       (default_options\<lparr>image_ref := Some [[1, 1]]\<rparr>)
     = Inr ([[2, 3]], [(Fin 0, Fin 0), (Fin 0, Fin 0)])"
    using blind_stack_result [OF l, where images = "Arr3 [[[1, 2]], [[4, 6]]]"
        and opts = "default_options\<lparr>image_ref := Some [[1, 1]]\<rparr>"
        and imgs = "[[[1, 2]], [[4, 6]]]" and ref = "[[1, 1]]" and n = 2 and E = ext_plain and k = 0] c
    by (simp add: default_options_def ext_plain_def img_add_def img_sum_def numeral_2_eq_2)
  show ?thesis using 1 2 3 by simp
qed

section \<open>Fourier amplitude selection: what is selected\<close>

lemma np_round_le:
  assumes "x \<le> of_int n"
  shows "np_round x \<le> n"
proof -
  have f: "\<lfloor>x\<rfloor> \<le> n" using assms by linarith
  show ?thesis
  proof (cases "\<lfloor>x\<rfloor> = n")
    case True
    then have "of_int n \<le> x" by (metis of_int_floor_le)
    with assms have "x = of_int n" by simp
    then show ?thesis by (simp add: np_round_def Let_def)
  next
    case False
    with f have "\<lfloor>x\<rfloor> + 1 \<le> n" by simp
    then show ?thesis using f by (simp add: np_round_def Let_def)
  qed
qed

text \<open>The number of frames kept is at most \<open>N\<close> when the float product is at most \<open>N\<close>.\<close>

lemma N_frames_to_keep_bounds:
  assumes "rnd (f * of_int n) \<le> of_int n" "0 < n"
  shows "1 \<le> N_frames_to_keep rnd f n" "N_frames_to_keep rnd f n \<le> nat n"
proof -
  have "np_round (rnd (f * of_int n)) \<le> n" using assms(1) by (rule np_round_le)
  then show "N_frames_to_keep rnd f n \<le> nat n" using assms by (simp add: N_frames_to_keep_def)
  show "1 \<le> N_frames_to_keep rnd f n" by (simp add: N_frames_to_keep_def)
qed

lemma fill_slot_fits: "length vals = k \<Longrightarrow> fill_slot k vals = vals"
  by (cases vals) (auto simp: fill_slot_def)

lemma mapE_elems: "mapE f xs = Inr ys \<Longrightarrow> y \<in> set ys \<Longrightarrow> \<exists>x \<in> set xs. f x = Inr y"
  by (induction xs arbitrary: ys) (auto split: sum.splits)

lemma edge_ramp_image_nonempty:
  assumes "edge_ramp_image im buff = Inr r"
  shows "concat r \<noteq> []"
proof -
  define b where "b = nat buff"
  define h where "h = fst (img_shape im)"
  define w where "w = snd (img_shape im)"
  from assms have ok: "0 \<le> buff" "2 * b < h" "2 * b < w"
    and r: "r = pad_linear_ramp b (centre_crop im (h - 2 * b, w - 2 * b))"
    by (auto simp: edge_ramp_image_def Let_def b_def h_def w_def split: if_splits)
  show ?thesis
  proof (cases "b = 0")
    case True
    from ok have "im \<noteq> []" by (auto simp: h_def img_shape_def)
    then obtain row rest where im: "im = row # rest" by (cases im) auto
    with ok have row: "row \<noteq> []" by (auto simp: w_def img_shape_def)
    have "img_shape im = (h, w)" by (simp add: h_def w_def)
    then have "r = map (take w) im"
      using True ok by (simp add: r pad_linear_ramp_def centre_crop_def Let_def h_def [symmetric])
        (simp add: h_def img_shape_def)
    then show ?thesis using im row ok by (auto simp: w_def img_shape_def)
  next
    case False
    let ?p = "pad_axis0 b (centre_crop im (h - 2 * b, w - 2 * b))"
    have "?p \<noteq> []" using False by (simp add: pad_axis0_def)
    then obtain row rest where p: "?p = row # rest" by (cases ?p) auto
    have "r = pad_axis1 b ?p" using False by (simp add: r pad_linear_ramp_def)
    then show ?thesis using False by (simp add: p pad_axis1_def ramp_before_def)
  qed
qed

lemma list_max_nonempty: "xs \<noteq> [] \<Longrightarrow> \<exists>m. list_max xs = Inr m"
  by (cases xs) (auto simp: list_max_def)

lemma mapE_total:
  assumes "\<And>x. x \<in> set xs \<Longrightarrow> \<exists>y. f x = Inr y"
  shows "\<exists>ys. mapE f xs = Inr ys"
  using assms by (induction xs) (auto, force)

lemma fas_fft_sum_nth:
  "i < h \<Longrightarrow> j < w \<Longrightarrow> fas_fft_sum h w outs ins ! i ! j = outs i j + ins i j"
  by (simp add: fas_fft_sum_def)

lemma fas_fft_sum_shape: "is_image h w (fas_fft_sum h w outs ins)"
  by (simp add: fas_fft_sum_def is_image_def list_all_iff)

lemma fas_method_setup:
  assumes "m = ''fourier amplitude selection'' \<or> m = ''fas''"
  shows "li_method_setup E m imgs ref n opts = Inr (ShiftFun (xcorr_fun E ref opts))"
  using assms by (auto simp: li_method_setup_def)

lemma fas_run:
  assumes m: "m = ''fourier amplitude selection'' \<or> m = ''fas''"
    and md: "mode opts = ''serial'' \<or> mode opts = ''parallel''"
    and n: "n = int (length imgs)" and ne: "imgs \<noteq> []"
    and al: "mapE sf imgs = Inr results"
  shows "li_run sf m imgs n opts = Inr (map fst results, map (\<lambda>r. fst (snd r)) results, None)"
proof -
  have "length results = length imgs" using al by (rule mapE_length)
  with ne have rs: "results \<noteq> []" by auto
  from m have pp: "m \<noteq> ''peak pixel''" by auto
  from md show ?thesis
  proof
    assume s: "mode opts = ''serial''"
    show ?thesis by (simp add: li_run_serial [OF s n] al pp)
  next
    assume p: "mode opts = ''parallel''"
    show ?thesis by (simp add: li_run_parallel [OF p] al rs pp)
  qed
qed

text \<open>
  Inside the cutoff of the code, \<open>fft_sum\<close> is the sum of the transforms of the frames
  that \<open>argsort\<close> ranks last by \<open>images_fft_amp\<close>; the peak-pixel rule adds nothing there.
\<close>

lemma fas_sum_inside:
  fixes E :: ext and ref :: image and ramped :: "image list" and opts :: li_options and n :: int
  assumes nonempty: "\<And>f. f \<in> set ramped \<Longrightarrow> concat f \<noteq> []"
    and k: "N_frames_to_keep (fl E) (fsr opts) n \<le> length ramped"
  defines "k \<equiv> N_frames_to_keep (fl E) (fsr opts) n"
  defines "h \<equiv> fst (img_shape ref)" and "w \<equiv> snd (img_shape ref)"
  defines "images_fft \<equiv> fas_images_fft E ramped"
  defines "images_fft_amp \<equiv> fas_images_fft_amp E (sigma_kernel opts) images_fft"
  defines "inside \<equiv> uv_map h w (cutoff_freq_px (fl E) (cutoff_freq_frac opts) h w)"
  shows "\<exists>fft_sum. fas_sum E ramped ref n opts = Inr fft_sum
      \<and> is_image h w fft_sum
      \<and> (\<forall>i < h. \<forall>j < w. inside i j \<longrightarrow>
            fft_sum ! i ! j = sum_list (read_frames images_fft (idxs_inside images_fft_amp k i j) i j))"
proof -
  have fits: "slot_fits k (length ramped)" using k by (simp add: slot_fits_def k_def)
  have len: "length (idxs_inside images_fft_amp k i j) = k" for i j
    using k
    by (simp add: idxs_inside_def slice_last_def images_fft_amp_def fas_images_fft_amp_def
        images_fft_def fas_images_fft_def k_def)
  have ins: "inside i j \<Longrightarrow> fas_inside images_fft images_fft_amp k inside i j
      = sum_list (read_frames images_fft (idxs_inside images_fft_amp k i j) i j)" for i j
    by (simp add: fas_inside_def fill_slot_fits read_frames_def len)
  have mx: "\<exists>m. list_max (concat f) = Inr m" if "f \<in> set ramped" for f
    using nonempty [OF that] by (rule list_max_nonempty)
  have "\<exists>outs.
    (if use_vals_outside_cutoff_freq opts
      then bindE (mapE (\<lambda>f. list_max (concat f)) ramped) (\<lambda>max_pixel_vals.
             if \<not> slot_fits k (length ramped) \<and> some_coord h w (\<lambda>i j. \<not> inside i j)
             then Inl Breakpoint
             else Inr (fas_outside images_fft max_pixel_vals k inside))
      else Inr (\<lambda>i j. 0)) = Inr outs \<and> (\<forall>i j. inside i j \<longrightarrow> outs i j = 0)"
  proof (cases "use_vals_outside_cutoff_freq opts")
    case True
    from mapE_total [of ramped "\<lambda>f. list_max (concat f)"] mx
    obtain mpv where "mapE (\<lambda>f. list_max (concat f)) ramped = Inr mpv" by blast
    then show ?thesis using True fits by (simp add: fas_outside_def)
  next
    case False
    then show ?thesis by simp
  qed
  then obtain outs where o:
    "(if use_vals_outside_cutoff_freq opts
      then bindE (mapE (\<lambda>f. list_max (concat f)) ramped) (\<lambda>max_pixel_vals.
             if \<not> slot_fits k (length ramped) \<and> some_coord h w (\<lambda>i j. \<not> inside i j)
             then Inl Breakpoint
             else Inr (fas_outside images_fft max_pixel_vals k inside))
      else Inr (\<lambda>i j. 0)) = Inr outs" and zero: "\<And>i j. inside i j \<Longrightarrow> outs i j = 0"
    by blast
  let ?sum = "fas_fft_sum h w outs (fas_inside images_fft images_fft_amp k inside)"
  have "fas_sum E ramped ref n opts = Inr ?sum"
  proof (cases "use_vals_outside_cutoff_freq opts")
    case True
    with o fits have "bindE (mapE (\<lambda>f. list_max (concat f)) ramped) (\<lambda>max_pixel_vals.
        Inr (fas_outside images_fft max_pixel_vals k inside)) = Inr outs" by simp
    then show ?thesis
      unfolding fas_sum_def
      using True fits
      by (simp add: Let_def k_def [symmetric] h_def [symmetric] w_def [symmetric]
          images_fft_def [symmetric] images_fft_amp_def [symmetric] inside_def [symmetric])
  next
    case False
    with o have "outs = (\<lambda>i j. 0)" by simp
    then show ?thesis
      unfolding fas_sum_def
      using False fits
      by (simp add: Let_def k_def [symmetric] h_def [symmetric] w_def [symmetric]
          images_fft_def [symmetric] images_fft_amp_def [symmetric] inside_def [symmetric])
  qed
  moreover have "is_image h w ?sum" by (rule fas_fft_sum_shape)
  moreover have "\<forall>i < h. \<forall>j < w. inside i j \<longrightarrow>
      ?sum ! i ! j = sum_list (read_frames images_fft (idxs_inside images_fft_amp k i j) i j)"
    by (simp add: fas_fft_sum_nth zero ins)
  ultimately show ?thesis by blast
qed

text \<open>For an even side the frequency coordinate of the code counts from the DC index.\<close>

lemma freq_coord_even: "even n \<Longrightarrow> freq_coord n i = real i - real (n div 2)"
  by (auto simp: freq_coord_def elim!: evenE)

subsection \<open>Evaluating the transforms\<close>

lemma twiddle_0 [simp]: "twiddle n 0 = 1"
  by (simp add: twiddle_def)

lemma twiddle_add: "twiddle n (a + b) = twiddle n a * twiddle n b"
  by (simp add: twiddle_def cis_mult add_divide_distrib distrib_left)

lemma twiddle_2_1: "twiddle (Suc (Suc 0)) (Suc 0) = -1"
  by (simp add: twiddle_def cis_cnj [symmetric])

lemma twiddle_3_1: "twiddle (Suc (Suc (Suc 0))) (Suc 0) = Complex (- 1 / 2) (- sqrt 3 / 2)"
proof -
  have "twiddle 3 1 = Complex (- 1 / 2) (- sqrt 3 / 2)"
    by (simp add: twiddle_def complex_eq_iff cos_120 sin_120)
  then show ?thesis by (simp add: numeral_3_eq_3)
qed

lemma twiddle_3_2: "twiddle (Suc (Suc (Suc 0))) (Suc (Suc 0)) = Complex (- 1 / 2) (sqrt 3 / 2)"
  using twiddle_add [of "Suc (Suc (Suc 0))" "Suc 0" "Suc 0"]
  by (simp add: twiddle_3_1 complex_eq_iff)

lemma twiddle_3_4:
  "twiddle (Suc (Suc (Suc 0))) (Suc (Suc (Suc (Suc 0)))) = Complex (- 1 / 2) (- sqrt 3 / 2)"
  using twiddle_add [of "Suc (Suc (Suc 0))" "Suc (Suc 0)" "Suc (Suc 0)"]
  by (simp add: twiddle_3_2 complex_eq_iff)

lemma fftshift_3: "fftshift [a, b, c] = [c, a, b]"
  by (simp add: fftshift_def)

lemma fftshift_2: "fftshift [a, b] = [b, a]"
  by (simp add: fftshift_def)

lemma dft2_delta: "dft2 [[10, 0, 0], [0, 0, 0], [0, 0, 0]] = [[10, 10, 10], [10, 10, 10], [10, 10, 10]]"
  by (simp add: dft2_def img_shape_def upt_conv_Cons)

lemma dft2_diag: "dft2 [[4, 0, 0], [0, 0, 4], [0, 4, 0]] = [[12, 0, 0], [0, 12, 0], [0, 0, 12]]"
  by (simp add: dft2_def img_shape_def upt_conv_Cons twiddle_3_1 twiddle_3_2 twiddle_3_4 complex_eq_iff)

lemma uv_map_iff:
  "0 \<le> c \<Longrightarrow> uv_map h w c i j \<longleftrightarrow> (freq_coord w j)\<^sup>2 + (freq_coord h i)\<^sup>2 < (of_int c)\<^sup>2"
proof -
  assume c: "0 \<le> c"
  have "sqrt ((freq_coord w j)\<^sup>2 + (freq_coord h i)\<^sup>2) < of_int c
      \<longleftrightarrow> sqrt ((freq_coord w j)\<^sup>2 + (freq_coord h i)\<^sup>2) < sqrt ((of_int c)\<^sup>2)"
    using c by simp
  also have "\<dots> \<longleftrightarrow> (freq_coord w j)\<^sup>2 + (freq_coord h i)\<^sup>2 < (of_int c)\<^sup>2"
    by (rule real_sqrt_less_iff)
  finally show ?thesis by (simp add: uv_map_def)
qed

lemma fl64_products: "fl64 1 = 1" "fl64 2 = 2" "fl64 (9 / 4) = 9 / 4"
  using fl64_eval_small [of 1 52] fl64_eval_small [of 2 51] fl64_eval_small [of "9 / 4" 51]
  by (simp_all add: np_round_def Let_def)

lemma cx_k: "N_frames_to_keep (fl ext_dft) (1 / 2) 2 = 1"
  by (simp add: N_frames_to_keep_def ext_dft_def ext_plain_def fl64_products np_round_def Let_def)

lemma cx_c:
  "cutoff_freq_px (fl ext_dft) (3 / 4) (Suc (Suc (Suc 0))) (Suc (Suc (Suc 0))) = 2"
  by (simp add: cutoff_freq_px_def ext_dft_def ext_plain_def fl64_products np_round_def Let_def)

lemma cx_F: "fas_images_fft ext_dft [[[10, 0, 0], [0, 0, 0], [0, 0, 0]], [[4, 0, 0], [0, 0, 4], [0, 4, 0]]]
   = [[[10, 10, 10], [10, 10, 10], [10, 10, 10]], [[12, 0, 0], [0, 12, 0], [0, 0, 12]]]"
  by (simp add: fas_images_fft_def ext_dft_def ext_plain_def dft2_delta dft2_diag fftshift2_def fftshift_3)

lemma cx_uv:
  "uv_map (Suc (Suc (Suc 0))) (Suc (Suc (Suc 0))) 2 i j
     \<longleftrightarrow> (freq_coord 3 j)\<^sup>2 + (freq_coord 3 i)\<^sup>2 < 4"
  by (simp add: uv_map_iff numeral_3_eq_3)

lemma dft2_frame_a: "dft2 [[11, 12], [13, 15]] = [[51, - 3], [- 5, 1]]"
  by (simp add: dft2_def img_shape_def upt_conv_Cons twiddle_2_1)

lemma dft2_frame_b: "dft2 [[2, 4], [6, 10]] = [[22, - 6], [- 10, 2]]"
  by (simp add: dft2_def img_shape_def upt_conv_Cons twiddle_2_1)

lemma idft2_sum: "idft2 [[51, - 6], [- 10, 2]] = [[37 / 4, 45 / 4], [53 / 4, 69 / 4]]"
  by (simp add: idft2_def img_shape_def upt_conv_Cons twiddle_2_1)

lemma wit_c: "cutoff_freq_px (fl ext_dft) 1 (Suc (Suc 0)) (Suc (Suc 0)) = 2"
  by (simp add: cutoff_freq_px_def ext_dft_def ext_plain_def fl64_products np_round_def Let_def)

lemma wit_uv:
  "uv_map (Suc (Suc 0)) (Suc (Suc 0)) 2 i j
     \<longleftrightarrow> (freq_coord 2 j)\<^sup>2 + (freq_coord 2 i)\<^sup>2 < 4"
  by (simp add: uv_map_iff numeral_2_eq_2)

lemma wit_F: "fas_images_fft ext_dft [[[11, 12], [13, 15]], [[2, 4], [6, 10]]]
   = [[[1, - 5], [- 3, 51]], [[2, - 10], [- 6, 22]]]"
  by (simp add: fas_images_fft_def ext_dft_def ext_plain_def dft2_frame_a dft2_frame_b
      fftshift2_def fftshift_2)

lemma wit_sum:
  "fas_sum ext_dft [[[11, 12], [13, 15]], [[2, 4], [6, 10]]] [[1, 2], [3, 5]] 2
       (default_options\<lparr>image_ref := Some [[1, 2], [3, 5]], fsr := 1 / 2,
          sub_pixel_shift := False, buff_fas := 0\<rparr>)
     = Inr [[2, - 10], [- 6, 51]]"
  by (simp add: fas_sum_def default_options_def img_shape_def cx_k wit_c wit_F wit_uv Let_def
      list_max_def slot_fits_def some_coord_def fas_outside_def fas_inside_def fas_fft_sum_def
      fas_images_fft_amp_def fill_slot_def read_frames_def idxs_inside_def slice_last_def
      argsort_def freq_coord_def upt_conv_Cons power2_eq_square)

lemma wit_ramp: "edge_ramp (Arr3 [[[11, 12], [13, 15]], [[2, 4], [6, 10]]]) 0
     = Inr (Arr3 [[[11, 12], [13, 15]], [[2, 4], [6, 10]]])"
  by (simp add: edge_ramp_def edge_ramp_image_def img_shape_def centre_crop_def
        pad_linear_ramp_def Let_def)

lemma wit_stack:
  "fas_stack ext_dft [[[11, 12], [13, 15]], [[2, 4], [6, 10]]] [[1, 2], [3, 5]] 2
       (default_options\<lparr>image_ref := Some [[1, 2], [3, 5]], fsr := 1 / 2,
          sub_pixel_shift := False, buff_fas := 0\<rparr>)
     = Inr [[37 / 4, 45 / 4], [53 / 4, 69 / 4]]"
proof -
  have i: "ifft2 ext_dft = idft2" by (simp add: ext_dft_def ext_plain_def)
  have k: "N_frames_to_keep (fl ext_dft)
      (fsr (default_options\<lparr>image_ref := Some [[1, 2], [3, 5]], fsr := 1 / 2,
          sub_pixel_shift := False, buff_fas := 0\<rparr>)) 2 = 1"
    using cx_k by (simp add: default_options_def)
  have r: "edge_ramp (Arr3 [[[11, 12], [13, 15]], [[2, 4], [6, 10]]])
      (buff_fas (default_options\<lparr>image_ref := Some [[1, 2], [3, 5]], fsr := 1 / 2,
          sub_pixel_shift := False, buff_fas := 0\<rparr>)) = Inr (Arr3 [[[11, 12], [13, 15]], [[2, 4], [6, 10]]])"
    using wit_ramp by (simp add: default_options_def)
  show ?thesis
    unfolding fas_stack_def r
    by (simp add: wit_sum cx_k fas_image_def i fftshift2_def fftshift_2 idft2_sum)
qed

lemma three_by_two:
  "Suc (Suc (Suc 0)) div Suc (Suc 0) = Suc 0" "Suc (Suc (Suc 0)) mod Suc (Suc 0) = Suc 0"
proof -
  have "(3::nat) div 2 = 1" "(3::nat) mod 2 = 1" by simp_all
  then show "Suc (Suc (Suc 0)) div Suc (Suc 0) = Suc 0" "Suc (Suc (Suc 0)) mod Suc (Suc 0) = Suc 0"
    by (simp_all only: numeral_3_eq_3 numeral_2_eq_2 One_nat_def)
qed

lemma wit_xcorr:
  "mapE (xcorr_fun ext_dft [[1, 2], [3, 5]]
             (default_options\<lparr>image_ref := Some [[1, 2], [3, 5]], fsr := 1 / 2,
          sub_pixel_shift := False, buff_fas := 0\<rparr>))
          [[[11, 12], [13, 15]], [[2, 4], [6, 10]]]
     = Inr [([[11, 12], [13, 15]], (Fin 0, Fin 0), None), ([[2, 4], [6, 10]], (Fin 0, Fin 0), None)]"
  by (simp add: xcorr_fun_def shift_xcorr_def ext_dft_def ext_plain_def default_options_def
      subtract_mean_def mean_def list_max_def img_shape_def np_true_divide_def np_argmax_def
      unravel_index_def three_by_two Let_def)

subsection \<open>The selection inside the cutoff\<close>




end
